theory Spec2Isabelle
  imports Main "HOL-Library.Multiset"
begin

section \<open>The side panel of the windoze extension\<close>

text \<open>
  The panel script (the second document of \<^verbatim>\<open>src/background.js\<close>, headed
  \<^verbatim>\<open>// sidepanel.js\<close>) turns the host's windows, tabs and tab groups into a DOM tree.
  The DOM is modelled as a tree of elements, the two in-memory maps and the two storage
  keys as fields of one state record, and every function of the script as a function
  on these. Strings are byte strings (UTF-8). An older copy of the script,
  \<^verbatim>\<open>src/unnamed/part_001\<close>, is modelled beside it with the suffix \<open>_v1\<close>. What the
  host answers (the windows with their tabs, the tab groups, the last focused window,
  the collation of two titles, the nodes the HTML parser makes of a string) is an
  argument of the function that asks for it. \<^verbatim>\<open>renderList\<close> is modelled by its steps,
  so that the calls of two listeners can be interleaved where the script waits. The
  wiring of host events to \<^verbatim>\<open>renderList\<close> and \<^verbatim>\<open>updateActiveStates\<close> at the head of
  the script is not part of the model.
\<close>

subsection \<open>Host data\<close>

text \<open>
  The fields the script reads of a tab, a tab group and a window. \<open>tab_id\<close>, \<open>grp_id\<close>
  and \<open>win_id\<close> are the field \<^verbatim>\<open>id\<close>, \<open>tab_title\<close> and \<open>grp_title\<close> the field
  \<^verbatim>\<open>title\<close>; a field the host may leave undefined is an option. A tab outside every
  group has the \<open>groupId\<close> \<open>-1\<close>.
\<close>

record tab =
  tab_id :: int
  groupId :: int
  tab_title :: "string option"
  url :: "string option"
  favIconUrl :: "string option"
  pinned :: bool
  active :: bool

record tab_group =
  grp_id :: int
  windowId :: int
  grp_title :: "string option"
  color :: string

record window =
  win_id :: int
  focused :: bool
  tabs :: "tab list"

subsection \<open>JavaScript values\<close>

text \<open>Decimal rendering of an integer, as a template literal \<^verbatim>\<open>${id}\<close> gives it.\<close>

fun string_of_nat :: "nat \<Rightarrow> string" where
  "string_of_nat n =
     (if n < 10 then [char_of (48 + n)]
      else string_of_nat (n div 10) @ [char_of (48 + n mod 10)])"

declare string_of_nat.simps [simp del]

definition string_of_int :: "int \<Rightarrow> string" where
  "string_of_int i =
     (if i < 0 then CHR ''-'' # string_of_nat (nat (- i)) else string_of_nat (nat i))"

text \<open>\<^verbatim>\<open>a || b\<close> on a possibly undefined string: undefined and the empty string are falsy.\<close>

definition js_or :: "string option \<Rightarrow> string \<Rightarrow> string" where
  "js_or a b = (case a of None \<Rightarrow> b | Some s \<Rightarrow> if s = [] then b else s)"

definition startsWith :: "string \<Rightarrow> string \<Rightarrow> bool" where
  "startsWith s p = (take (length p) s = p)"

text \<open>
  \<^verbatim>\<open>String.prototype.trim\<close> strips the white space and the line terminators of the
  language from both ends: TAB, LF, VT, FF, CR, SP, and beyond ASCII U+00A0, U+1680,
  U+2000 to U+200A, U+2028, U+2029, U+202F, U+205F, U+3000 and U+FEFF, here in their
  UTF-8 forms.
\<close>

definition white_space :: "string list" where
  "white_space =
     [[CHR 0x09], [CHR 0x0A], [CHR 0x0B], [CHR 0x0C], [CHR 0x0D], [CHR 0x20],
      [CHR 0xC2, CHR 0xA0],
      [CHR 0xE1, CHR 0x9A, CHR 0x80],
      [CHR 0xE2, CHR 0x80, CHR 0x80], [CHR 0xE2, CHR 0x80, CHR 0x81],
      [CHR 0xE2, CHR 0x80, CHR 0x82], [CHR 0xE2, CHR 0x80, CHR 0x83],
      [CHR 0xE2, CHR 0x80, CHR 0x84], [CHR 0xE2, CHR 0x80, CHR 0x85],
      [CHR 0xE2, CHR 0x80, CHR 0x86], [CHR 0xE2, CHR 0x80, CHR 0x87],
      [CHR 0xE2, CHR 0x80, CHR 0x88], [CHR 0xE2, CHR 0x80, CHR 0x89],
      [CHR 0xE2, CHR 0x80, CHR 0x8A],
      [CHR 0xE2, CHR 0x80, CHR 0xA8], [CHR 0xE2, CHR 0x80, CHR 0xA9],
      [CHR 0xE2, CHR 0x80, CHR 0xAF],
      [CHR 0xE2, CHR 0x81, CHR 0x9F],
      [CHR 0xE3, CHR 0x80, CHR 0x80],
      [CHR 0xEF, CHR 0xBB, CHR 0xBF]]"

text \<open>How many bytes the white space character takes that the string starts with, if any.\<close>

definition leading_space :: "string list \<Rightarrow> string \<Rightarrow> nat" where
  "leading_space ws s = (case find (startsWith s) ws of None \<Rightarrow> 0 | Some w \<Rightarrow> length w)"

fun strip_start :: "string list \<Rightarrow> string \<Rightarrow> string" where
  "strip_start ws [] = []"
| "strip_start ws (c # cs) =
     (if leading_space ws (c # cs) = 0 then c # cs
      else strip_start ws (drop (leading_space ws (c # cs) - 1) cs))"

definition js_trim :: "string \<Rightarrow> string" where
  "js_trim s = rev (strip_start (map rev white_space) (rev (strip_start white_space s)))"

text \<open>A flag read from the collapse map in a condition: absent and false are falsy.\<close>

definition truthy :: "bool option \<Rightarrow> bool" where
  "truthy b = (b = Some True)"

subsection \<open>The DOM\<close>

text \<open>
  The closures that the script attaches as event listeners, named by what they do and
  holding the values they capture.
\<close>

datatype handler =
    ToggleSection string
  | ActivateTab int int
  | FocusWindow int
  | SaveTitleOnBlur int
  | BlurOnEnter
  | ActivateGroup int int
  | ActivateFirstOf int "int list"
  | FallbackIcon

record elem =
  tag :: string
  ident :: string
  classes :: "string list"
  attrs :: "(string \<times> string) list"
  listeners :: "(string \<times> handler) list"

text \<open>
  A node is a text node or an element with its children. \<open>ident\<close> is the element's
  \<^verbatim>\<open>id\<close>, empty when it has none; \<open>classes\<close> is its \<^verbatim>\<open>classList\<close>, an ordered set
  of tokens; \<open>attrs\<close> holds its other attributes, those set through \<^verbatim>\<open>dataset\<close>
  under their \<^verbatim>\<open>data-\<close> names.
\<close>

datatype node = Text string | El elem "node list"

definition createElement :: "string \<Rightarrow> elem" where
  "createElement t = \<lparr>tag = t, ident = [], classes = [], attrs = [], listeners = []\<rparr>"

definition classList_add :: "string \<Rightarrow> elem \<Rightarrow> elem" where
  "classList_add c e = (if c \<in> set (classes e) then e else e\<lparr>classes := classes e @ [c]\<rparr>)"

definition classList_remove :: "string \<Rightarrow> elem \<Rightarrow> elem" where
  "classList_remove c e = e\<lparr>classes := removeAll c (classes e)\<rparr>"

definition classList_toggle :: "string \<Rightarrow> bool \<Rightarrow> elem \<Rightarrow> elem" where
  "classList_toggle c force e = (if force then classList_add c e else classList_remove c e)"

definition classList_contains :: "string \<Rightarrow> elem \<Rightarrow> bool" where
  "classList_contains c e = (c \<in> set (classes e))"

text \<open>
  Setting a key of an insertion-ordered table (an attribute list, a \<^verbatim>\<open>Map\<close>): a key
  already present keeps its place and takes the new value, a new key goes to the end.
\<close>

fun assoc_set :: "'k \<Rightarrow> 'v \<Rightarrow> ('k \<times> 'v) list \<Rightarrow> ('k \<times> 'v) list" where
  "assoc_set a v [] = [(a, v)]"
| "assoc_set a v ((b, w) # xs) = (if a = b then (a, v) # xs else (b, w) # assoc_set a v xs)"

definition setAttribute :: "string \<Rightarrow> string \<Rightarrow> elem \<Rightarrow> elem" where
  "setAttribute a v e = e\<lparr>attrs := assoc_set a v (attrs e)\<rparr>"

definition getAttribute :: "string \<Rightarrow> elem \<Rightarrow> string option" where
  "getAttribute a e = map_of (attrs e) a"

definition addEventListener :: "string \<Rightarrow> handler \<Rightarrow> elem \<Rightarrow> elem" where
  "addEventListener ev h e = e\<lparr>listeners := listeners e @ [(ev, h)]\<rparr>"

text \<open>The \<^verbatim>\<open>textContent\<close> setter: the children become one text node, none for the empty string.\<close>

definition textContent :: "string \<Rightarrow> node list" where
  "textContent s = (if s = [] then [] else [Text s])"

definition appendChild :: "node \<Rightarrow> node list \<Rightarrow> node list" where
  "appendChild c ks = ks @ [c]"

text \<open>\<^verbatim>\<open>insertBefore(n, r)\<close>; the script only calls it with a reference node that is a child.\<close>

fun insertBefore :: "node \<Rightarrow> node \<Rightarrow> node list \<Rightarrow> node list" where
  "insertBefore n r [] = [n]"
| "insertBefore n r (k # ks) = (if k = r then n # k # ks else k # insertBefore n r ks)"

text \<open>
  \<^verbatim>\<open>querySelectorAll(sel).forEach(f)\<close> for an \<open>f\<close> that edits the element it is given:
  every element matching the selector is edited.
\<close>

fun forEach_matching :: "(elem \<Rightarrow> bool) \<Rightarrow> (elem \<Rightarrow> elem) \<Rightarrow> node \<Rightarrow> node" where
  "forEach_matching p f (Text s) = Text s"
| "forEach_matching p f (El e ks) =
     El (if p e then f e else e) (map (forEach_matching p f) ks)"

text \<open>
  \<^verbatim>\<open>querySelector(sel)\<close> followed by an edit of the element found: the first match in
  document order is edited; \<open>None\<close> when nothing matches.
\<close>

fun edit_first :: "(elem \<Rightarrow> bool) \<Rightarrow> (elem \<Rightarrow> elem) \<Rightarrow> node \<Rightarrow> node option"
  and edit_first_list :: "(elem \<Rightarrow> bool) \<Rightarrow> (elem \<Rightarrow> elem) \<Rightarrow> node list \<Rightarrow> node list option"
where
  "edit_first p f (Text s) = None"
| "edit_first p f (El e ks) =
     (if p e then Some (El (f e) ks) else map_option (El e) (edit_first_list p f ks))"
| "edit_first_list p f [] = None"
| "edit_first_list p f (k # ks) =
     (case edit_first p f k of
        Some k' \<Rightarrow> Some (k' # ks)
      | None \<Rightarrow> map_option ((#) k) (edit_first_list p f ks))"

definition edit_if_found :: "(elem \<Rightarrow> bool) \<Rightarrow> (elem \<Rightarrow> elem) \<Rightarrow> node \<Rightarrow> node" where
  "edit_if_found p f d = (case edit_first p f d of None \<Rightarrow> d | Some d' \<Rightarrow> d')"

text \<open>The first element in document order that satisfies \<open>p\<close>.\<close>

fun find_first :: "(elem \<Rightarrow> bool) \<Rightarrow> node \<Rightarrow> elem option"
  and find_first_list :: "(elem \<Rightarrow> bool) \<Rightarrow> node list \<Rightarrow> elem option"
where
  "find_first p (Text s) = None"
| "find_first p (El e ks) = (if p e then Some e else find_first_list p ks)"
| "find_first_list p [] = None"
| "find_first_list p (k # ks) =
     (case find_first p k of Some e \<Rightarrow> Some e | None \<Rightarrow> find_first_list p ks)"

text \<open>\<^verbatim>\<open>document.getElementById\<close>; no element is found under the empty id.\<close>

definition getElementById :: "string \<Rightarrow> node \<Rightarrow> elem option" where
  "getElementById key d = (if key = [] then None else find_first (\<lambda>e. ident e = key) d)"

text \<open>An edit of the element a closure holds, addressed by its path of child positions.\<close>

fun edit_at :: "nat list \<Rightarrow> (elem \<Rightarrow> elem) \<Rightarrow> node \<Rightarrow> node" where
  "edit_at [] f (El e ks) = El (f e) ks"
| "edit_at (i # is) f (El e ks) =
     (if i < length ks then El e (ks[i := edit_at is f (ks ! i)]) else El e ks)"
| "edit_at is f n = n"


fun count_elems :: "(elem \<Rightarrow> bool) \<Rightarrow> node \<Rightarrow> nat" where
  "count_elems P (Text s) = 0"
| "count_elems P (El e ks) = (if P e then 1 else 0) + sum_list (map (count_elems P) ks)"

fun kids :: "node \<Rightarrow> node list" where
  "kids (El e ks) = ks"
| "kids n = []"

fun with_kids :: "node list \<Rightarrow> node \<Rightarrow> node" where
  "with_kids ks (El e old) = El e ks"
| "with_kids ks n = n"

text \<open>
  What the host's HTML parser makes of a string: text, and elements with the
  attributes written in their tags. The parser is the host's; it is an argument
  \<open>parse\<close> of the functions that assign to \<^verbatim>\<open>innerHTML\<close>.
\<close>

datatype html = HText string | HEl string "(string \<times> string) list" "html list"

type_synonym parser = "string \<Rightarrow> html list"

text \<open>The tokens of a \<^verbatim>\<open>class\<close> attribute, split at the white space of HTML.\<close>

fun class_tokens :: "string \<Rightarrow> string \<Rightarrow> string list" where
  "class_tokens acc [] = (if acc = [] then [] else [acc])"
| "class_tokens acc (c # cs) =
     (if c \<in> {CHR 0x09, CHR 0x0A, CHR 0x0C, CHR 0x0D, CHR 0x20}
      then (if acc = [] then [] else [acc]) @ class_tokens [] cs
      else class_tokens (acc @ [c]) cs)"

text \<open>
  The nodes that assigning a string to \<^verbatim>\<open>innerHTML\<close> gives an element as its children.
  A parsed element has the id and the classes its attributes name, and no listener.
\<close>

fun dom_of :: "html \<Rightarrow> node" where
  "dom_of (HText s) = Text s"
| "dom_of (HEl t as ks) =
     El \<lparr>tag = t,
         ident = (case map_of as ''id'' of None \<Rightarrow> [] | Some v \<Rightarrow> v),
         classes = (case map_of as ''class'' of None \<Rightarrow> [] | Some v \<Rightarrow> remdups (class_tokens [] v)),
         attrs = filter (\<lambda>(k, v). k \<noteq> ''id'' \<and> k \<noteq> ''class'') as,
         listeners = []\<rparr>
        (map dom_of ks)"

definition innerHTML :: "parser \<Rightarrow> string \<Rightarrow> node list" where
  "innerHTML parse markup = map dom_of (parse markup)"

subsection \<open>The State Store\<close>

text \<open>
  Work scheduled with \<^verbatim>\<open>setTimeout\<close>: a full render (with its scroll flag) or the
  restoring of a scroll offset, each with its delay.
\<close>

datatype task = RenderTask bool nat | ScrollTask int nat

text \<open>
  \<open>windowTitles\<close> and \<open>collapsedState\<close> are the script's two global objects; the two
  \<open>stored\<close> fields are the keys \<^verbatim>\<open>customWindowTitles\<close> and \<^verbatim>\<open>collapsedState\<close> of
  \<^verbatim>\<open>chrome.storage.local\<close>, \<open>None\<close> while a key has never been written. Object keys are
  strings: a window id indexes \<open>windowTitles\<close> through its decimal form. \<open>document\<close> is
  the panel's document, rooted at the mount point \<^verbatim>\<open>#sidebar-content\<close>.
\<close>

record panel =
  windowTitles :: "string \<rightharpoonup> string"
  collapsedState :: "string \<rightharpoonup> bool"
  stored_windowTitles :: "(string \<rightharpoonup> string) option"
  stored_collapsedState :: "(string \<rightharpoonup> bool) option"
  document :: node
  scrollTop :: int
  timers :: "task list"

definition loadWindowTitles :: "panel \<Rightarrow> panel" where
  "loadWindowTitles s =
     s\<lparr>windowTitles := (case stored_windowTitles s of None \<Rightarrow> Map.empty | Some m \<Rightarrow> m)\<rparr>"

definition saveWindowTitle :: "int \<Rightarrow> string \<Rightarrow> panel \<Rightarrow> panel" where
  "saveWindowTitle wid title s =
     (let s1 = s\<lparr>windowTitles := (windowTitles s)(string_of_int wid \<mapsto> title)\<rparr>;
          s2 = s1\<lparr>stored_windowTitles := Some (windowTitles s1)\<rparr>
      in s2\<lparr>timers := timers s2 @ [RenderTask True 50]\<rparr>)"

definition loadCollapsedState :: "panel \<Rightarrow> panel" where
  "loadCollapsedState s =
     s\<lparr>collapsedState := (case stored_collapsedState s of None \<Rightarrow> Map.empty | Some m \<Rightarrow> m)\<rparr>"

definition saveCollapsedState :: "string \<Rightarrow> bool \<Rightarrow> panel \<Rightarrow> panel" where
  "saveCollapsedState key isCollapsed s =
     (let s1 = s\<lparr>collapsedState := (collapsedState s)(key \<mapsto> isCollapsed)\<rparr>
      in s1\<lparr>stored_collapsedState := Some (collapsedState s1)\<rparr>)"

text \<open>
  The \<^verbatim>\<open>blur\<close> listener of a window's editable title: the text the span holds at that
  moment is trimmed and saved.
\<close>

definition title_blur :: "int \<Rightarrow> string \<Rightarrow> panel \<Rightarrow> panel" where
  "title_blur wid text s = saveWindowTitle wid (js_trim text) s"

subsection \<open>Building elements\<close>

definition className :: "string list \<Rightarrow> elem \<Rightarrow> elem" where
  "className tokens e = e\<lparr>classes := tokens\<rparr>"

definition set_id :: "string \<Rightarrow> elem \<Rightarrow> elem" where
  "set_id key e = e\<lparr>ident := key\<rparr>"

text \<open>\<^verbatim>\<open>createToggleArrow(key)\<close>; \<open>cs\<close> is the global \<open>collapsedState\<close> it reads.\<close>

definition createToggleArrow :: "(string \<rightharpoonup> bool) \<Rightarrow> string \<Rightarrow> node" where
  "createToggleArrow cs key =
     (let arrow = className [''toggle-arrow''] (createElement ''span'');
          arrow = (if \<not> truthy (cs key) then classList_add ''expanded'' arrow else arrow)
      in El (addEventListener ''click'' (ToggleSection key) arrow) [])"

definition favicon_src :: "tab \<Rightarrow> string" where
  "favicon_src t =
     (case favIconUrl t of
        None \<Rightarrow> ''icons/icon16.png''
      | Some u \<Rightarrow>
          if startsWith u ''http://'' \<or> startsWith u ''https://'' then u
          else ''icons/icon16.png'')"

text \<open>The glyph U+25B4 of the pinned marker, in UTF-8.\<close>

definition pinned_glyph :: string where
  "pinned_glyph = [CHR 0xE2, CHR 0x96, CHR 0xB4]"

text \<open>The body of the loop of \<^verbatim>\<open>createTabList\<close>: the list item built for one tab.\<close>

definition tab_row :: "int \<Rightarrow> tab \<Rightarrow> node" where
  "tab_row wid t =
     (let tabLink = setAttribute ''data-tab-id'' (string_of_int (tab_id t))
                      (className [''tab-item''] (createElement ''div''));
          favicon = El (addEventListener ''error'' FallbackIcon
                          (setAttribute ''src'' (favicon_src t)
                             (className [''item-icon''] (createElement ''img'')))) [];
          title = El (className [''item-title''] (createElement ''span''))
                     (textContent (js_or (tab_title t) (js_or (url t) [])));
          linkKids = appendChild title (appendChild favicon []);
          linkKids =
            (if pinned t then
               let marker = El (setAttribute ''aria-hidden'' ''true''
                                  (className [''pinned-marker''] (createElement ''span'')))
                               (textContent pinned_glyph);
                   sr = El (className [''sr-only''] (createElement ''span''))
                           (textContent '' (pinned)'')
               in appendChild sr (insertBefore marker title linkKids)
             else linkKids);
          tabLink = addEventListener ''click'' (ActivateTab wid (tab_id t)) tabLink
      in El (createElement ''li'') (appendChild (El tabLink linkKids) []))"

definition createTabList :: "tab list \<Rightarrow> int \<Rightarrow> string \<Rightarrow> node" where
  "createTabList ts wid cn = El (className [cn] (createElement ''ul'')) (map (tab_row wid) ts)"

subsection \<open>The Activation Updater\<close>

definition is_marked_window :: "elem \<Rightarrow> bool" where
  "is_marked_window e = (classList_contains ''window-item'' e \<and> classList_contains ''active-window'' e)"

definition is_marked_tab :: "elem \<Rightarrow> bool" where
  "is_marked_tab e = (classList_contains ''tab-item'' e \<and> classList_contains ''active-tab'' e)"

definition is_window_row :: "int \<Rightarrow> elem \<Rightarrow> bool" where
  "is_window_row wid e =
     (classList_contains ''window-item'' e \<and> getAttribute ''data-window-id'' e = Some (string_of_int wid))"

definition is_tab_row :: "int \<Rightarrow> elem \<Rightarrow> bool" where
  "is_tab_row tid e =
     (classList_contains ''tab-item'' e \<and> getAttribute ''data-tab-id'' e = Some (string_of_int tid))"

text \<open>
  The DOM work of \<^verbatim>\<open>updateActiveStates\<close>; \<open>currentWindow\<close> is what
  \<^verbatim>\<open>chrome.windows.getLastFocused\<close> answered, \<open>None\<close> when there is no such window.
\<close>

definition refresh_markers :: "window option \<Rightarrow> node \<Rightarrow> node" where
  "refresh_markers currentWindow d =
     (let d = forEach_matching is_marked_window (classList_remove ''active-window'') d;
          d = forEach_matching is_marked_tab (classList_remove ''active-tab'') d
      in case currentWindow of
           None \<Rightarrow> d
         | Some w \<Rightarrow>
             (let d = edit_if_found (is_window_row (win_id w)) (classList_add ''active-window'') d
              in case find active (tabs w) of
                   None \<Rightarrow> d
                 | Some activeTab \<Rightarrow>
                     edit_if_found (is_tab_row (tab_id activeTab)) (classList_add ''active-tab'') d))"

definition updateActiveStates :: "window option \<Rightarrow> panel \<Rightarrow> panel" where
  "updateActiveStates currentWindow s = s\<lparr>document := refresh_markers currentWindow (document s)\<rparr>"

subsection \<open>Collapsing a section\<close>

text \<open>
  The click listener of a toggle arrow. \<open>arrow\<close> is the position of the arrow element
  the closure holds, \<open>key\<close> the id of the region it was created for.
\<close>

definition toggle_click :: "nat list \<Rightarrow> string \<Rightarrow> panel \<Rightarrow> panel" where
  "toggle_click arrow key s =
     (case getElementById key (document s) of
        None \<Rightarrow> s
      | Some targetElement \<Rightarrow>
          (let isNowCollapsed = \<not> classList_contains ''collapsed'' targetElement;
               d = edit_at arrow (classList_toggle ''expanded'' (\<not> isNowCollapsed)) (document s);
               d = edit_if_found (\<lambda>e. ident e = key) (classList_toggle ''collapsed'' isNowCollapsed) d
           in saveCollapsedState key isNowCollapsed (s\<lparr>document := d\<rparr>)))"

subsection \<open>The Tree Renderer\<close>

text \<open>The title a window is shown and sorted under.\<close>

definition display_title :: "(string \<rightharpoonup> string) \<Rightarrow> int \<Rightarrow> string" where
  "display_title wt wid = js_or (wt (string_of_int wid)) (''Window '' @ string_of_int wid)"

text \<open>
  The comparator handed to \<^verbatim>\<open>windows.sort\<close>. \<open>lc a b\<close> stands for the host's
  \<^verbatim>\<open>a.localeCompare(b, undefined, {numeric: true, sensitivity: 'base'})\<close>.
\<close>

definition compare_windows ::
  "(string \<Rightarrow> string \<Rightarrow> int) \<Rightarrow> (string \<rightharpoonup> string) \<Rightarrow> window \<Rightarrow> window \<Rightarrow> int" where
  "compare_windows lc wt a b =
     (if focused a \<and> \<not> focused b then - 1
      else if \<not> focused a \<and> focused b then 1
      else lc (display_title wt (win_id a)) (display_title wt (win_id b)))"

text \<open>
  \<^verbatim>\<open>Array.prototype.sort\<close> with a comparator: a stable sort, here by insertion. An element
  goes before the first one it does not compare greater than.
\<close>

fun insort_cmp :: "('a \<Rightarrow> 'a \<Rightarrow> int) \<Rightarrow> 'a \<Rightarrow> 'a list \<Rightarrow> 'a list" where
  "insort_cmp cmp x [] = [x]"
| "insort_cmp cmp x (y # ys) = (if cmp x y \<le> 0 then x # y # ys else y # insort_cmp cmp x ys)"

fun js_sort :: "('a \<Rightarrow> 'a \<Rightarrow> int) \<Rightarrow> 'a list \<Rightarrow> 'a list" where
  "js_sort cmp [] = []"
| "js_sort cmp (x # xs) = insort_cmp cmp x (js_sort cmp xs)"

text \<open>\<^verbatim>\<open>new Map(tabGroups.map(group => [group.id, group]))\<close>: a later entry replaces an earlier one.\<close>

definition groupMap_of :: "tab_group list \<Rightarrow> (int \<rightharpoonup> tab_group)" where
  "groupMap_of tabGroups = fold (\<lambda>g m. m(grp_id g \<mapsto> g)) tabGroups Map.empty"

definition nl :: string where
  "nl = [CHR 0x0A]"

definition spaces :: "nat \<Rightarrow> string" where
  "spaces n = replicate n CHR '' ''"

text \<open>
  The string assigned to the \<^verbatim>\<open>innerHTML\<close> of a group's title area: the colour and the
  title go into the markup as they are.
\<close>

definition group_markup :: "string \<Rightarrow> string option \<Rightarrow> string" where
  "group_markup colour title =
     nl @ spaces 28
       @ ''<span class=\"group-color-dot\" style=\"background-color: '' @ colour
       @ '';\"></span>'' @ nl @ spaces 28
       @ ''<span class=\"item-title\">'' @ js_or title ''Untitled Group''
       @ ''</span>'' @ nl @ spaces 24"

text \<open>
  The block built for a group the first time one of its tabs is met. The children of
  the title area are what the parser makes of \<open>group_markup\<close>.
\<close>

definition render_group ::
  "parser \<Rightarrow> (string \<rightharpoonup> bool) \<Rightarrow> window \<Rightarrow> tab_group \<Rightarrow> int \<Rightarrow> node" where
  "render_group parse cs win groupInfo gid =
     (let groupList = className [''group-list''] (createElement ''ul'');
          groupItem = createElement ''li'';
          groupHeader = className [''group-item''] (createElement ''div'');
          groupContentId = ''group-content-'' @ string_of_int gid;
          tabsInGroupContainer = set_id groupContentId (createElement ''div'');
          tabsInGroupContainer =
            (if truthy (cs groupContentId) then classList_add ''collapsed'' tabsInGroupContainer
             else tabsInGroupContainer);
          groupArrow = createToggleArrow cs groupContentId;
          headerKids = appendChild groupArrow [];
          groupTitleArea = className [''group-title-area''] (createElement ''div'');
          titleKids = innerHTML parse (group_markup (color groupInfo) (grp_title groupInfo));
          groupTitleArea = addEventListener ''click'' (ActivateGroup (win_id win) gid) groupTitleArea;
          headerKids = appendChild (El groupTitleArea titleKids) headerKids;
          itemKids = appendChild (El groupHeader headerKids) [];
          tabsInGroup = filter (\<lambda>t. groupId t = gid) (tabs win);
          tabsInGroupList = createTabList tabsInGroup (win_id win) ''tab-list-in-group'';
          containerKids = appendChild tabsInGroupList [];
          itemKids = appendChild (El tabsInGroupContainer containerKids) itemKids
      in El groupList (appendChild (El groupItem itemKids) []))"

text \<open>
  The loop over \<^verbatim>\<open>win.tabs\<close>: the nodes appended to the window's content region, in
  order. \<open>renderedGroups\<close> is the set of the same name.
\<close>

fun render_tabs ::
  "parser \<Rightarrow> (string \<rightharpoonup> bool) \<Rightarrow> (int \<rightharpoonup> tab_group) \<Rightarrow> window \<Rightarrow> int set \<Rightarrow> tab list
     \<Rightarrow> node list" where
  "render_tabs parse cs groupMap win renderedGroups [] = []"
| "render_tabs parse cs groupMap win renderedGroups (t # rest) =
     (if \<not> groupId t > - 1 then
        createTabList [t] (win_id win) ''tab-list-no-group''
          # render_tabs parse cs groupMap win renderedGroups rest
      else if groupId t \<notin> renderedGroups then
        (case groupMap (groupId t) of
           None \<Rightarrow> createTabList [t] (win_id win) ''tab-list-no-group''
         | Some groupInfo \<Rightarrow>
             if windowId groupInfo \<noteq> win_id win
             then createTabList [t] (win_id win) ''tab-list-no-group''
             else render_group parse cs win groupInfo (groupId t))
          # render_tabs parse cs groupMap win (insert (groupId t) renderedGroups) rest
      else render_tabs parse cs groupMap win renderedGroups rest)"

text \<open>The list item built for one window.\<close>

definition render_window ::
  "parser \<Rightarrow> (string \<rightharpoonup> string) \<Rightarrow> (string \<rightharpoonup> bool) \<Rightarrow> (int \<rightharpoonup> tab_group) \<Rightarrow> window
     \<Rightarrow> node" where
  "render_window parse wt cs groupMap win =
     (let windowItem = createElement ''li'';
          windowHeader = setAttribute ''data-window-id'' (string_of_int (win_id win))
                           (className [''window-item''] (createElement ''div''));
          windowContentId = ''window-content-'' @ string_of_int (win_id win);
          windowContent = set_id windowContentId (createElement ''div'');
          windowContent =
            (if truthy (cs windowContentId) then classList_add ''collapsed'' windowContent
             else windowContent);
          windowArrow = createToggleArrow cs windowContentId;
          headerKids = appendChild windowArrow [];
          windowTitleArea = addEventListener ''click'' (FocusWindow (win_id win))
                              (className [''window-title-area''] (createElement ''div''));
          windowTitleSpan = setAttribute ''data-window-id'' (string_of_int (win_id win))
                              (setAttribute ''contenteditable'' ''true''
                                 (className [''item-title'', ''editable-title''] (createElement ''span'')));
          spanKids = textContent (display_title wt (win_id win));
          windowTitleSpan = addEventListener ''blur'' (SaveTitleOnBlur (win_id win)) windowTitleSpan;
          windowTitleSpan = addEventListener ''keydown'' BlurOnEnter windowTitleSpan;
          areaKids = appendChild (El windowTitleSpan spanKids) [];
          headerKids = appendChild (El windowTitleArea areaKids) headerKids;
          itemKids = appendChild (El windowHeader headerKids) [];
          contentKids = render_tabs parse cs groupMap win {} (tabs win);
          itemKids = appendChild (El windowContent contentKids) itemKids
      in El windowItem itemKids)"

text \<open>
  \<^verbatim>\<open>renderList(shouldRestoreScroll)\<close> runs in steps, and between two of them the
  script waits for storage or for the host, so that other listeners can run. The first
  step, before any waiting, notes the scroll offset and empties the mount point.
\<close>

definition renderList_clear :: "bool \<Rightarrow> panel \<Rightarrow> int \<times> panel" where
  "renderList_clear shouldRestoreScroll s =
     (let initialScrollPosition = (if shouldRestoreScroll then scrollTop s else 0)
      in (initialScrollPosition, s\<lparr>document := with_kids [] (document s)\<rparr>))"

text \<open>
  The two loads are \<open>loadWindowTitles\<close> and \<open>loadCollapsedState\<close>. The step after the
  host has answered \<^verbatim>\<open>chrome.windows.getAll\<close> and \<^verbatim>\<open>chrome.tabGroups.query\<close> with
  \<open>windows\<close> and \<open>tabGroups\<close>: the windows are sorted, the tree is built from the two
  maps as they are in memory then, and appended to whatever the mount point holds
  then; the scroll offset noted by the first step is scheduled to be restored.
\<close>

definition renderList_mount ::
  "parser \<Rightarrow> (string \<Rightarrow> string \<Rightarrow> int) \<Rightarrow> window list \<Rightarrow> tab_group list \<Rightarrow> bool \<Rightarrow> int
     \<Rightarrow> panel \<Rightarrow> panel" where
  "renderList_mount parse lc windows tabGroups shouldRestoreScroll initialScrollPosition s =
     (let windows = js_sort (compare_windows lc (windowTitles s)) windows;
          groupMap = groupMap_of tabGroups;
          windowList = El (className [''window-list''] (createElement ''ul''))
                          (map (render_window parse (windowTitles s) (collapsedState s) groupMap) windows);
          s = s\<lparr>document := with_kids (appendChild windowList (kids (document s))) (document s)\<rparr>
      in if shouldRestoreScroll
         then s\<lparr>timers := timers s @ [ScrollTask initialScrollPosition 0]\<rparr> else s)"

text \<open>
  One call of \<^verbatim>\<open>renderList\<close> that runs alone, no other listener between its steps:
  the last step is the closing call of \<^verbatim>\<open>updateActiveStates\<close>, \<open>currentWindow\<close> being
  the host's answer to its \<^verbatim>\<open>getLastFocused\<close>.
\<close>

definition renderList ::
  "parser \<Rightarrow> (string \<Rightarrow> string \<Rightarrow> int) \<Rightarrow> window list \<Rightarrow> tab_group list \<Rightarrow> window option
     \<Rightarrow> bool \<Rightarrow> panel \<Rightarrow> panel" where
  "renderList parse lc windows tabGroups currentWindow shouldRestoreScroll s =
     (let (initialScrollPosition, s) = renderList_clear shouldRestoreScroll s;
          s = loadCollapsedState (loadWindowTitles s);
          s = renderList_mount parse lc windows tabGroups shouldRestoreScroll initialScrollPosition s
      in updateActiveStates currentWindow s)"


subsection \<open>The older render loop\<close>

text \<open>
  \<^verbatim>\<open>src/unnamed/part_001\<close> is an earlier copy of the panel script. It differs from the
  script above in \<^verbatim>\<open>createTabList\<close> and in the part of \<^verbatim>\<open>renderList\<close> that fills a
  window's content region; these are modelled here.
\<close>

definition tab_row_v1 :: "int \<Rightarrow> tab \<Rightarrow> node" where
  "tab_row_v1 wid t =
     (let tabLink = setAttribute ''data-tab-id'' (string_of_int (tab_id t))
                      (className [''tab-item''] (createElement ''div''));
          favicon = El (addEventListener ''error'' FallbackIcon
                          (setAttribute ''src'' (favicon_src t)
                             (className [''item-icon''] (createElement ''img'')))) [];
          title = El (className [''item-title''] (createElement ''span''))
                     (textContent (case tab_title t of None \<Rightarrow> [] | Some x \<Rightarrow> x));
          linkKids = appendChild title (appendChild favicon []);
          tabLink = addEventListener ''click'' (ActivateTab wid (tab_id t)) tabLink
      in El (createElement ''li'') (appendChild (El tabLink linkKids) []))"

definition createTabList_v1 :: "tab list \<Rightarrow> int \<Rightarrow> string \<Rightarrow> node" where
  "createTabList_v1 ts wid cn =
     El (className [cn] (createElement ''ul'')) (map (tab_row_v1 wid) ts)"

text \<open>
  \<^verbatim>\<open>tabsByGroup\<close>, a \<^verbatim>\<open>Map\<close> in insertion order; the key \<open>None\<close> is \<^verbatim>\<open>'none'\<close>. First
  the key of every group of this window is set to an empty array, then every tab whose
  key is present is pushed onto that key's array.
\<close>

definition group_key :: "tab \<Rightarrow> int option" where
  "group_key t = (if groupId t > - 1 then Some (groupId t) else None)"

definition tabsByGroup_init :: "tab_group list \<Rightarrow> window \<Rightarrow> (int option \<times> tab list) list" where
  "tabsByGroup_init tabGroups win =
     fold (\<lambda>g m. if windowId g = win_id win then assoc_set (Some (grp_id g)) [] m else m)
       tabGroups [(None, [])]"

definition tabsByGroup_fill ::
  "tab list \<Rightarrow> (int option \<times> tab list) list \<Rightarrow> (int option \<times> tab list) list" where
  "tabsByGroup_fill ts m0 =
     fold (\<lambda>t m. case map_of m (group_key t) of
                    None \<Rightarrow> m
                  | Some arr \<Rightarrow> assoc_set (group_key t) (arr @ [t]) m)
       ts m0"

definition group_markup_v1 :: "string \<Rightarrow> string option \<Rightarrow> nat \<Rightarrow> string" where
  "group_markup_v1 colour title n =
     nl @ spaces 16
       @ ''<span class=\"group-color-dot\" style=\"background-color: '' @ colour
       @ '';\"></span>'' @ nl @ spaces 16
       @ ''<span class=\"item-title\">'' @ js_or title ''Untitled Group''
       @ '' ('' @ string_of_nat n @ '' tabs)</span>'' @ nl @ spaces 12"

definition render_group_v1 ::
  "parser \<Rightarrow> (string \<rightharpoonup> bool) \<Rightarrow> window \<Rightarrow> tab_group \<Rightarrow> int \<Rightarrow> tab list \<Rightarrow> node" where
  "render_group_v1 parse cs win groupInfo gid ts =
     (let groupList = className [''group-list''] (createElement ''ul'');
          groupItem = createElement ''li'';
          groupHeader = className [''group-item''] (createElement ''div'');
          groupContentId = ''group-content-'' @ string_of_int gid;
          tabsInGroupContainer = set_id groupContentId (createElement ''div'');
          tabsInGroupContainer =
            (if truthy (cs groupContentId) then classList_add ''collapsed'' tabsInGroupContainer
             else tabsInGroupContainer);
          groupArrow = createToggleArrow cs groupContentId;
          headerKids = appendChild groupArrow [];
          groupTitleArea = className [''group-title-area''] (createElement ''div'');
          titleKids = innerHTML parse (group_markup_v1 (color groupInfo) (grp_title groupInfo) (length ts));
          groupTitleArea =
            addEventListener ''click'' (ActivateFirstOf (win_id win) (map tab_id ts)) groupTitleArea;
          headerKids = appendChild (El groupTitleArea titleKids) headerKids;
          itemKids = appendChild (El groupHeader headerKids) [];
          tabsInGroupList = createTabList_v1 ts (win_id win) ''tab-list-in-group'';
          containerKids = appendChild tabsInGroupList [];
          itemKids = appendChild (El tabsInGroupContainer containerKids) itemKids
      in El groupList (appendChild (El groupItem itemKids) []))"

text \<open>The loop over the entries of \<^verbatim>\<open>tabsByGroup\<close>: one block for every group it keeps.\<close>

fun render_groups_v1 ::
  "parser \<Rightarrow> (string \<rightharpoonup> bool) \<Rightarrow> (int \<rightharpoonup> tab_group) \<Rightarrow> window
     \<Rightarrow> (int option \<times> tab list) list \<Rightarrow> node list" where
  "render_groups_v1 parse cs groupMap win [] = []"
| "render_groups_v1 parse cs groupMap win ((key, ts) # rest) =
     (case key of
        None \<Rightarrow> render_groups_v1 parse cs groupMap win rest
      | Some gid \<Rightarrow>
          if ts = [] then render_groups_v1 parse cs groupMap win rest
          else (case groupMap gid of
                  None \<Rightarrow> render_groups_v1 parse cs groupMap win rest
                | Some groupInfo \<Rightarrow>
                    if windowId groupInfo \<noteq> win_id win then render_groups_v1 parse cs groupMap win rest
                    else render_group_v1 parse cs win groupInfo gid ts
                           # render_groups_v1 parse cs groupMap win rest))"

text \<open>The nodes the older loop appends to a window's content region, in order.\<close>

definition render_content_v1 ::
  "parser \<Rightarrow> (string \<rightharpoonup> bool) \<Rightarrow> tab_group list \<Rightarrow> window \<Rightarrow> node list" where
  "render_content_v1 parse cs tabGroups win =
     (let tabsByGroup = tabsByGroup_fill (tabs win) (tabsByGroup_init tabGroups win);
          groupBlocks = render_groups_v1 parse cs (groupMap_of tabGroups) win tabsByGroup
      in case map_of tabsByGroup None of
           None \<Rightarrow> groupBlocks
         | Some ungroupedTabs \<Rightarrow>
             if length ungroupedTabs > 0
             then appendChild (createTabList_v1 ungroupedTabs (win_id win) ''tab-list-no-group'')
                    groupBlocks
             else groupBlocks)"

text \<open>The same region as the current script fills it.\<close>

definition render_content ::
  "parser \<Rightarrow> (string \<rightharpoonup> bool) \<Rightarrow> tab_group list \<Rightarrow> window \<Rightarrow> node list" where
  "render_content parse cs tabGroups win = render_tabs parse cs (groupMap_of tabGroups) win {} (tabs win)"

subsection \<open>Reading a tree\<close>

text \<open>
  The functions of this part are not the script's: they read the trees it builds, so
  that properties can be stated about them.
\<close>

text \<open>The first element matching a selector, with its subtree.\<close>

fun querySelector :: "(elem \<Rightarrow> bool) \<Rightarrow> node \<Rightarrow> node option"
  and querySelector_list :: "(elem \<Rightarrow> bool) \<Rightarrow> node list \<Rightarrow> node option"
where
  "querySelector p (Text s) = None"
| "querySelector p (El e ks) = (if p e then Some (El e ks) else querySelector_list p ks)"
| "querySelector_list p [] = None"
| "querySelector_list p (k # ks) =
     (case querySelector p k of Some n \<Rightarrow> Some n | None \<Rightarrow> querySelector_list p ks)"

fun node_classes :: "node \<Rightarrow> string list" where
  "node_classes (El e ks) = classes e"
| "node_classes n = []"

fun node_attr :: "string \<Rightarrow> node \<Rightarrow> string option" where
  "node_attr a (El e ks) = getAttribute a e"
| "node_attr a n = None"

text \<open>The children of the \<^verbatim>\<open>.tab-item\<close> element of a tab's list item.\<close>

definition link_kids :: "node \<Rightarrow> node list" where
  "link_kids row =
     (case querySelector (classList_contains ''tab-item'') row of None \<Rightarrow> [] | Some n \<Rightarrow> kids n)"

text \<open>The same edit on every element of a tree.\<close>

fun map_elems :: "(elem \<Rightarrow> elem) \<Rightarrow> node \<Rightarrow> node" where
  "map_elems g (Text s) = Text s"
| "map_elems g (El e ks) = El (g e) (map (map_elems g) ks)"

text \<open>The two removal passes of the Activation Updater on one element, and its marking step.\<close>

definition unmark :: "elem \<Rightarrow> elem" where
  "unmark e =
     (let e = (if is_marked_window e then classList_remove ''active-window'' e else e)
      in if is_marked_tab e then classList_remove ''active-tab'' e else e)"

definition add_markers :: "window option \<Rightarrow> node \<Rightarrow> node" where
  "add_markers currentWindow d =
     (case currentWindow of
        None \<Rightarrow> d
      | Some w \<Rightarrow>
          (let d = edit_if_found (is_window_row (win_id w)) (classList_add ''active-window'') d
           in case find active (tabs w) of
                None \<Rightarrow> d
              | Some activeTab \<Rightarrow>
                  edit_if_found (is_tab_row (tab_id activeTab)) (classList_add ''active-tab'') d))"

text \<open>Is this the row of the window, of the active tab, that the host reports as focused.\<close>

definition is_current_window_row :: "window option \<Rightarrow> elem \<Rightarrow> bool" where
  "is_current_window_row currentWindow e =
     (case currentWindow of None \<Rightarrow> False | Some w \<Rightarrow> is_window_row (win_id w) e)"

definition is_current_tab_row :: "window option \<Rightarrow> elem \<Rightarrow> bool" where
  "is_current_tab_row currentWindow e =
     (case currentWindow of
        None \<Rightarrow> False
      | Some w \<Rightarrow> (case find active (tabs w) of
                     None \<Rightarrow> False
                   | Some activeTab \<Rightarrow> is_tab_row (tab_id activeTab) e))"

text \<open>A tree with the two marker tokens taken out of every class list.\<close>

definition erase_markers :: "node \<Rightarrow> node" where
  "erase_markers d =
     map_elems (\<lambda>e. e\<lparr>classes := filter (\<lambda>c. c \<noteq> ''active-window'' \<and> c \<noteq> ''active-tab'') (classes e)\<rparr>) d"

text \<open>
  The panel as the script finds it when it is loaded: both maps empty, nothing stored,
  the mount point without children.
\<close>

definition initial_panel :: panel where
  "initial_panel =
     \<lparr>windowTitles = map_of [], collapsedState = map_of [],
      stored_windowTitles = None, stored_collapsedState = None,
      document = El (set_id ''sidebar-content'' (createElement ''div'')) [],
      scrollTop = 0, timers = []\<rparr>"


definition stored_flag :: "panel \<Rightarrow> string \<Rightarrow> bool option" where
  "stored_flag s key = (case stored_collapsedState s of None \<Rightarrow> None | Some m \<Rightarrow> m key)"

subsection \<open>A parser for the examples\<close>

text \<open>
  A stand-in for the host's parser on markup of the kind the script writes: text, start
  tags with attributes in double quotes, end tags. It is used where an example needs
  the nodes of a given string; the properties stated for every snapshot hold for every
  parser.
\<close>

datatype token = Chars string | Open string "(string \<times> string) list" | Close string

fun attr_scan :: "string \<Rightarrow> string option \<Rightarrow> string \<Rightarrow> (string \<times> string) list" where
  "attr_scan name v [] = []"
| "attr_scan name None (c # cs) =
     (if c = CHR 0x22 then attr_scan name (Some []) cs
      else if c = CHR '' '' \<or> c = CHR ''='' then attr_scan name None cs
      else attr_scan (name @ [c]) None cs)"
| "attr_scan name (Some v) (c # cs) =
     (if c = CHR 0x22 then (name, v) # attr_scan [] None cs
      else attr_scan name (Some (v @ [c])) cs)"

definition tag_token :: "string \<Rightarrow> token" where
  "tag_token s =
     (if startsWith s ''/'' then Close (drop 1 s)
      else Open (takeWhile (\<lambda>c. c \<noteq> CHR '' '') s)
             (attr_scan [] None (dropWhile (\<lambda>c. c \<noteq> CHR '' '') s)))"

fun tokens_of :: "string \<Rightarrow> bool \<Rightarrow> string \<Rightarrow> token list" where
  "tokens_of acc in_tag [] = (if in_tag \<or> acc = [] then [] else [Chars acc])"
| "tokens_of acc in_tag (c # cs) =
     (if in_tag
      then (if c = CHR ''>'' then tag_token acc # tokens_of [] False cs
            else tokens_of (acc @ [c]) True cs)
      else (if c = CHR ''<'' then (if acc = [] then [] else [Chars acc]) @ tokens_of [] True cs
            else tokens_of (acc @ [c]) False cs))"

text \<open>
  The tree of a token sequence: \<open>stack\<close> holds the elements still open, each with the
  nodes that precede it in its parent; \<open>sofar\<close> the children of the innermost open one.
\<close>

fun nest ::
  "(string \<times> (string \<times> string) list \<times> html list) list \<Rightarrow> html list \<Rightarrow> token list \<Rightarrow> html list"
where
  "nest [] sofar [] = sofar"
| "nest ((t, as, before) # stack) sofar [] = nest stack (before @ [HEl t as sofar]) []"
| "nest stack sofar (Chars s # ts) = nest stack (sofar @ [HText s]) ts"
| "nest stack sofar (Open t as # ts) = nest ((t, as, sofar) # stack) [] ts"
| "nest [] sofar (Close t # ts) = nest [] sofar ts"
| "nest ((t', as, before) # stack) sofar (Close t # ts) = nest stack (before @ [HEl t' as sofar]) ts"

definition parse_markup :: parser where
  "parse_markup s = nest [] [] (tokens_of [] False s)"

subsection \<open>An example snapshot\<close>

text \<open>
  One window with three tabs, the second in the group \<^verbatim>\<open>Work\<close> of colour blue; a
  collation that finds all titles equal; the panel after its first render of this
  snapshot.
\<close>

definition example_tabs :: "tab list" where
  "example_tabs =
     [\<lparr>tab_id = 11, groupId = - 1, tab_title = Some ''Inbox'', url = Some ''https://mail.example/'',
        favIconUrl = None, pinned = False, active = False\<rparr>,
      \<lparr>tab_id = 12, groupId = 7, tab_title = Some ''Tracker'', url = Some ''https://bugs.example/'',
        favIconUrl = Some ''https://bugs.example/favicon.ico'', pinned = False, active = True\<rparr>,
      \<lparr>tab_id = 13, groupId = - 1, tab_title = None, url = Some ''about:blank'',
        favIconUrl = None, pinned = False, active = False\<rparr>]"

definition example_window :: window where
  "example_window = \<lparr>win_id = 1, focused = True, tabs = example_tabs\<rparr>"

definition example_group :: tab_group where
  "example_group = \<lparr>grp_id = 7, windowId = 1, grp_title = Some ''Work'', color = ''blue''\<rparr>"

definition no_collation :: "string \<Rightarrow> string \<Rightarrow> int" where
  "no_collation a b = 0"



text \<open>
  The example snapshot with a group 7 whose title is the markup of an element; the
  panel after its first render of this snapshot.
\<close>

definition shadowing_group :: tab_group where
  "shadowing_group =
     \<lparr>grp_id = 7, windowId = 1, grp_title = Some ''<i id=\"group-content-7\"></i>'', color = ''blue''\<rparr>"

definition shadowed_panel :: panel where
  "shadowed_panel =
     renderList parse_markup no_collation [example_window] [shadowing_group] (Some example_window)
       False initial_panel"

text \<open>
  A window of which two tabs name the group 9, which does not exist, one tab is in
  the group 7 and one in no group.
\<close>

definition shared_fallback_window :: window where
  "shared_fallback_window =
     \<lparr>win_id = 1, focused = True,
      tabs = [\<lparr>tab_id = 31, groupId = - 1, tab_title = Some ''News'', url = None, favIconUrl = None,
                pinned = False, active = True\<rparr>,
              \<lparr>tab_id = 32, groupId = 9, tab_title = Some ''Docs'', url = None, favIconUrl = None,
                pinned = False, active = False\<rparr>,
              \<lparr>tab_id = 33, groupId = 7, tab_title = Some ''Tracker'', url = None, favIconUrl = None,
                pinned = False, active = False\<rparr>,
              \<lparr>tab_id = 34, groupId = 9, tab_title = Some ''Wiki'', url = None, favIconUrl = None,
                pinned = False, active = False\<rparr>]\<rparr>"

text \<open>A stand-in for the host's collation, and three windows to sort.\<close>

definition compare_lengths :: "string \<Rightarrow> string \<Rightarrow> int" where
  "compare_lengths a b = int (length a) - int (length b)"

definition example_windows :: "window list" where
  "example_windows =
     [\<lparr>win_id = 30, focused = False, tabs = []\<rparr>,
      \<lparr>win_id = 2, focused = True, tabs = []\<rparr>,
      \<lparr>win_id = 4, focused = False, tabs = []\<rparr>]"

text \<open>The group id names a group of the window.\<close>

definition valid_group :: "(int \<rightharpoonup> tab_group) \<Rightarrow> window \<Rightarrow> int \<Rightarrow> bool" where
  "valid_group gm win gid = (case gm gid of None \<Rightarrow> False | Some g \<Rightarrow> windowId g = win_id win)"

text \<open>
  First-encounter order, in the words of the specification. A tab is ungrouped when it
  names no group, or names a group that does not exist or belongs to another window.
  The block at the position of a tab: an ungrouped tab is a row of its own; the first
  tab of a group brings the block of the group; a later tab of the group adds nothing.
\<close>

definition ungrouped :: "(int \<rightharpoonup> tab_group) \<Rightarrow> window \<Rightarrow> tab \<Rightarrow> bool" where
  "ungrouped gm win t = (\<not> groupId t > - 1 \<or> \<not> valid_group gm win (groupId t))"

definition block_at ::
  "parser \<Rightarrow> (string \<rightharpoonup> bool) \<Rightarrow> (int \<rightharpoonup> tab_group) \<Rightarrow> window \<Rightarrow> nat \<Rightarrow> node list" where
  "block_at parse cs gm win i =
     (let t = tabs win ! i in
      if ungrouped gm win t then [createTabList [t] (win_id win) ''tab-list-no-group'']
      else if groupId t \<in> groupId ` set (take i (tabs win)) then []
      else [render_group parse cs win (the (gm (groupId t))) (groupId t)])"

definition first_encounter_blocks ::
  "parser \<Rightarrow> (string \<rightharpoonup> bool) \<Rightarrow> (int \<rightharpoonup> tab_group) \<Rightarrow> window \<Rightarrow> node list" where
  "first_encounter_blocks parse cs gm win =
     concat (map (block_at parse cs gm win) [0..<length (tabs win)])"

text \<open>
  The tabs of the window that name a group that does not exist or belongs to another
  window name different groups.
\<close>

definition lone_fallbacks :: "(int \<rightharpoonup> tab_group) \<Rightarrow> window \<Rightarrow> bool" where
  "lone_fallbacks gm win =
     distinct (map groupId
       (filter (\<lambda>t. groupId t > - 1 \<and> \<not> valid_group gm win (groupId t)) (tabs win)))"

text \<open>The ids of the tab rows of a tree, in document order.\<close>

fun tab_ids_of :: "node \<Rightarrow> string list" where
  "tab_ids_of (Text s) = []"
| "tab_ids_of (El e ks) =
     (if classList_contains ''tab-item'' e
      then (case getAttribute ''data-tab-id'' e of None \<Rightarrow> [] | Some v \<Rightarrow> [v]) else [])
     @ concat (map tab_ids_of ks)"

text \<open>The block a tab brings when the groups in \<open>S\<close> have been met before it.\<close>

definition blk ::
  "parser \<Rightarrow> (string \<rightharpoonup> bool) \<Rightarrow> (int \<rightharpoonup> tab_group) \<Rightarrow> window \<Rightarrow> int set \<Rightarrow> tab \<Rightarrow> node list" where
  "blk parse cs gm win S t =
     (if \<not> groupId t > - 1 then [createTabList [t] (win_id win) ''tab-list-no-group'']
      else if groupId t \<in> S then []
      else (case gm (groupId t) of
              None \<Rightarrow> [createTabList [t] (win_id win) ''tab-list-no-group'']
            | Some g \<Rightarrow>
                if windowId g = win_id win then [render_group parse cs win g (groupId t)]
                else [createTabList [t] (win_id win) ''tab-list-no-group'']))"

text \<open>The ids of the elements of a tree that have one, in document order.\<close>

fun region_ids_of :: "node \<Rightarrow> string list" where
  "region_ids_of (Text s) = []"
| "region_ids_of (El e ks) = (if ident e = [] then [] else [ident e]) @ concat (map region_ids_of ks)"

text \<open>
  The region of a group block: what follows the header in the block's list item.
\<close>

definition block_region :: "node \<Rightarrow> node list" where
  "block_region b = concat (map (\<lambda>item. drop 1 (kids item)) (kids b))"

text \<open>
  What a sequence of blocks shows: for every group block the id of its region and the
  tabs listed in it; the tabs listed outside the groups.
\<close>

definition group_layout :: "node list \<Rightarrow> (string list \<times> string list) list" where
  "group_layout blocks =
     map (\<lambda>b. (concat (map region_ids_of (block_region b)), concat (map tab_ids_of (block_region b))))
       (filter (\<lambda>b. ''group-list'' \<in> set (node_classes b)) blocks)"

text \<open>
  The ids of the elements the parser makes of a group's title and colour; no group of
  the list has a title or a colour of which it makes an element with an id.
\<close>

definition title_ids :: "parser \<Rightarrow> tab_group \<Rightarrow> string list" where
  "title_ids parse g =
     concat (map region_ids_of (innerHTML parse (group_markup (color g) (grp_title g))))"

definition plain_titles :: "parser \<Rightarrow> tab_group list \<Rightarrow> bool" where
  "plain_titles parse gs = list_all (\<lambda>g. title_ids parse g = []) gs"

text \<open>
  The title of a window in the words of the specification, the stored custom title if
  one is set and \<^verbatim>\<open>Window {id}\<close> otherwise, an empty title counting as set; and the title
  the windows are found sorted under, where an empty title counts as not set.
\<close>

definition title_if_set :: "(string \<rightharpoonup> string) \<Rightarrow> window \<Rightarrow> string" where
  "title_if_set wt w =
     (case wt (string_of_int (win_id w)) of
        None \<Rightarrow> ''Window '' @ string_of_int (win_id w)
      | Some t \<Rightarrow> t)"

definition title_if_not_empty :: "(string \<rightharpoonup> string) \<Rightarrow> window \<Rightarrow> string" where
  "title_if_not_empty wt w =
     (case wt (string_of_int (win_id w)) of
        None \<Rightarrow> ''Window '' @ string_of_int (win_id w)
      | Some t \<Rightarrow> if t = [] then ''Window '' @ string_of_int (win_id w) else t)"

text \<open>The node at a path of child positions.\<close>

fun node_at :: "nat list \<Rightarrow> node \<Rightarrow> node option" where
  "node_at [] n = Some n"
| "node_at (i # path) n = (if i < length (kids n) then node_at path (kids n ! i) else None)"

definition loose_tab_ids :: "node list \<Rightarrow> string list" where
  "loose_tab_ids blocks =
     concat (map tab_ids_of (filter (\<lambda>b. ''tab-list-no-group'' \<in> set (node_classes b)) blocks))"

text \<open>What the block of a group of a window has to show.\<close>

definition layout_of_group :: "window \<Rightarrow> int \<Rightarrow> string list \<times> string list" where
  "layout_of_group win gid =
     ([''group-content-'' @ string_of_int gid],
      map (\<lambda>t. string_of_int (tab_id t)) (filter (\<lambda>t. groupId t = gid) (tabs win)))"

text \<open>Every tab of the window that names a group names a group of the window.\<close>

definition well_grouped :: "tab_group list \<Rightarrow> window \<Rightarrow> bool" where
  "well_grouped tabGroups win =
     (\<forall>t \<in> set (tabs win). groupId t > - 1 \<longrightarrow>
        (case groupMap_of tabGroups (groupId t) of
           None \<Rightarrow> False
         | Some g \<Rightarrow> windowId g = win_id win))"

text \<open>The keys of the toggle arrows of a tree, in document order.\<close>

fun toggle_keys :: "(string \<times> handler) list \<Rightarrow> string list" where
  "toggle_keys [] = []"
| "toggle_keys ((ev, ToggleSection k) # ls) = k # toggle_keys ls"
| "toggle_keys (l # ls) = toggle_keys ls"

fun arrow_keys_of :: "node \<Rightarrow> string list" where
  "arrow_keys_of (Text s) = []"
| "arrow_keys_of (El e ks) = toggle_keys (listeners e) @ concat (map arrow_keys_of ks)"

text \<open>Reading a decimal numeral back.\<close>

definition nat_of_string :: "string \<Rightarrow> nat" where
  "nat_of_string s = foldl (\<lambda>a c. 10 * a + (of_char c - 48)) 0 s"


section \<open>Properties\<close>

subsection \<open>Evaluating the builders\<close>

lemmas build_defs = createElement_def className_def set_id_def setAttribute_def
  addEventListener_def appendChild_def classList_contains_def classList_add_def getAttribute_def

lemma link_kids_tab_row:
  "link_kids (tab_row wid t) =
     (let icon = El \<lparr>tag = ''img'', ident = [], classes = [''item-icon''],
                     attrs = [(''src'', favicon_src t)], listeners = [(''error'', FallbackIcon)]\<rparr> [];
          title = El \<lparr>tag = ''span'', ident = [], classes = [''item-title''], attrs = [],
                      listeners = []\<rparr>
                    (textContent (js_or (tab_title t) (js_or (url t) [])))
      in if pinned t then
           [icon,
            El \<lparr>tag = ''span'', ident = [], classes = [''pinned-marker''],
                 attrs = [(''aria-hidden'', ''true'')], listeners = []\<rparr> [Text pinned_glyph],
            title,
            El \<lparr>tag = ''span'', ident = [], classes = [''sr-only''], attrs = [], listeners = []\<rparr>
               [Text '' (pinned)'']]
         else [icon, title])"
  by (simp add: link_kids_def tab_row_def build_defs Let_def textContent_def pinned_glyph_def)

lemma title_span_of_render_window:
  "map_option kids (querySelector (classList_contains ''editable-title'') (render_window parse wt cs gm win))
     = Some (textContent (display_title wt (win_id win)))"
  by (simp add: render_window_def Let_def build_defs createToggleArrow_def)

subsection \<open>Edits of a tree\<close>

lemma forEach_matching_map: "forEach_matching p f d = map_elems (\<lambda>e. if p e then f e else e) d"
  by (induction d) auto

lemma map_elems_absorb:
  assumes "\<And>e. g (h e) = g e"
  shows "map_elems g (map_elems h d) = map_elems g d"
  using assms by (induction d) auto

lemma map_elems_edit_first:
  "\<forall>e. p e \<longrightarrow> g (f e) = g e \<Longrightarrow> edit_first p f d = Some d' \<Longrightarrow> map_elems g d' = map_elems g d"
  "\<forall>e. p e \<longrightarrow> g (f e) = g e \<Longrightarrow> edit_first_list p f ks = Some ks'
     \<Longrightarrow> map (map_elems g) ks' = map (map_elems g) ks"
proof (induction p f d and p f ks arbitrary: d' and ks' rule: edit_first_edit_first_list.induct)
  case (2 p f e ks)
  then show ?case by (auto split: if_splits)
next
  case (4 p f k ks)
  then show ?case by (auto split: option.splits)
qed auto

lemma map_elems_edit_if_found:
  assumes "\<And>e. p e \<Longrightarrow> g (f e) = g e"
  shows "map_elems g (edit_if_found p f d) = map_elems g d"
  using map_elems_edit_first(1)[of p g f d] assms
  by (auto simp: edit_if_found_def split: option.splits)

lemma count_map_elems_none:
  assumes "\<And>e. \<not> q (g e)"
  shows "count_elems q (map_elems g d) = 0"
  using assms by (induction d) auto

lemma count_edit_first:
  "edit_first p f d = Some d' \<Longrightarrow> count_elems q d' \<le> count_elems q d + 1"
  "edit_first_list p f ks = Some ks' \<Longrightarrow>
     sum_list (map (count_elems q) ks') \<le> sum_list (map (count_elems q) ks) + 1"
proof (induction p f d and p f ks arbitrary: d' and ks' rule: edit_first_edit_first_list.induct)
  case (2 p f e ks)
  then show ?case by (fastforce split: if_splits)
next
  case (4 p f k ks)
  then show ?case by (fastforce split: option.splits)
qed auto

lemma count_edit_if_found_le: "count_elems q (edit_if_found p f d) \<le> count_elems q d + 1"
  using count_edit_first(1)[of p f d]
  by (auto simp: edit_if_found_def split: option.splits)

lemma count_edit_first_same:
  "\<forall>e. p e \<longrightarrow> q (f e) = q e \<Longrightarrow> edit_first p f d = Some d'
     \<Longrightarrow> count_elems q d' = count_elems q d"
  "\<forall>e. p e \<longrightarrow> q (f e) = q e \<Longrightarrow> edit_first_list p f ks = Some ks' \<Longrightarrow>
     sum_list (map (count_elems q) ks') = sum_list (map (count_elems q) ks)"
proof (induction p f d and p f ks arbitrary: d' and ks' rule: edit_first_edit_first_list.induct)
  case (2 p f e ks)
  then show ?case by (fastforce split: if_splits)
next
  case (4 p f k ks)
  then show ?case by (fastforce split: option.splits)
qed auto

lemma count_edit_if_found_same:
  assumes "\<And>e. p e \<Longrightarrow> q (f e) = q e"
  shows "count_elems q (edit_if_found p f d) = count_elems q d"
  using count_edit_first_same(1)[of p q f d] assms
  by (auto simp: edit_if_found_def split: option.splits)

subsection \<open>The Activation Updater\<close>

lemma refresh_markers_split: "refresh_markers cw d = add_markers cw (map_elems unmark d)"
proof -
  have "map_elems (\<lambda>e. if is_marked_tab e then classList_remove ''active-tab'' e else e)
          (map_elems (\<lambda>e. if is_marked_window e then classList_remove ''active-window'' e else e) d)
        = map_elems unmark d"
    by (induction d) (auto simp: unmark_def Let_def)
  then show ?thesis
    by (simp add: refresh_markers_def add_markers_def forEach_matching_map Let_def
        split: option.splits)
qed

lemmas marker_defs = unmark_def is_marked_window_def is_marked_tab_def is_window_row_def
  is_tab_row_def classList_contains_def classList_add_def classList_remove_def getAttribute_def

lemma unmark_add_window:
  "is_window_row wid e \<Longrightarrow> unmark (classList_add ''active-window'' e) = unmark e"
  by (auto simp: marker_defs Let_def)

lemma unmark_add_tab: "is_tab_row tid e \<Longrightarrow> unmark (classList_add ''active-tab'' e) = unmark e"
  by (auto simp: marker_defs Let_def)

lemma unmark_idem: "unmark (unmark e) = unmark e"
  by (auto simp: marker_defs Let_def)

lemma unmark_add_markers: "map_elems unmark (add_markers cw d) = map_elems unmark d"
  by (auto simp: add_markers_def Let_def map_elems_edit_if_found unmark_add_window unmark_add_tab
      split: option.splits)

lemma refresh_markers_idem: "refresh_markers cw (refresh_markers cw d) = refresh_markers cw d"
  by (simp add: refresh_markers_split unmark_add_markers map_elems_absorb unmark_idem)

lemma not_marked_unmark: "\<not> is_marked_window (unmark e)" "\<not> is_marked_tab (unmark e)"
  by (auto simp: marker_defs Let_def)

lemma marked_window_add_tab: "is_marked_window (classList_add ''active-tab'' e) = is_marked_window e"
  by (auto simp: marker_defs)

lemma marked_tab_add_window: "is_marked_tab (classList_add ''active-window'' e) = is_marked_tab e"
  by (auto simp: marker_defs)

lemma count_marked_window: "count_elems is_marked_window (refresh_markers cw d) \<le> 1"
proof -
  have z: "count_elems is_marked_window (map_elems unmark d) = 0"
    by (rule count_map_elems_none) (rule not_marked_unmark)
  show ?thesis
    using count_edit_if_found_le[of is_marked_window _ "classList_add ''active-window''"
        "map_elems unmark d"] z
    by (auto simp: refresh_markers_split add_markers_def Let_def count_edit_if_found_same
        marked_window_add_tab split: option.splits)
qed

lemma count_marked_tab: "count_elems is_marked_tab (refresh_markers cw d) \<le> 1"
proof -
  have z: "count_elems is_marked_tab (map_elems unmark d) = 0"
    by (rule count_map_elems_none) (rule not_marked_unmark)
  have z2: "count_elems is_marked_tab
              (edit_if_found p (classList_add ''active-window'') (map_elems unmark d)) = 0" for p
    by (simp add: count_edit_if_found_same marked_tab_add_window z)
  show ?thesis
    using count_edit_if_found_le[of is_marked_tab _ "classList_add ''active-tab''"] z z2
    by (auto simp: refresh_markers_split add_markers_def Let_def split: option.splits
        intro: order_trans[OF count_edit_if_found_le])
qed

text \<open>A marker left after the update sits on the row of the focused window, of its active tab.\<close>

lemma stale_window_add_window:
  "is_window_row wid e \<Longrightarrow>
   (is_marked_window (classList_add ''active-window'' e) \<and> \<not> is_window_row wid (classList_add ''active-window'' e))
     = (is_marked_window e \<and> \<not> is_window_row wid e)"
  by (auto simp: marker_defs)

lemma no_stale_window:
  "count_elems (\<lambda>e. is_marked_window e \<and> \<not> is_current_window_row cw e) (refresh_markers cw d) = 0"
proof (cases cw)
  case None
  have "count_elems (\<lambda>e. is_marked_window e \<and> \<not> False) (map_elems unmark d) = 0"
    by (rule count_map_elems_none) (simp add: not_marked_unmark)
  with None show ?thesis
    by (simp add: refresh_markers_split add_markers_def is_current_window_row_def)
next
  case (Some w)
  let ?q = "\<lambda>e. is_marked_window e \<and> \<not> is_window_row (win_id w) e"
  have z: "count_elems ?q (map_elems unmark d) = 0"
    by (rule count_map_elems_none) (simp add: not_marked_unmark)
  have a: "count_elems ?q (edit_if_found (is_window_row (win_id w)) (classList_add ''active-window'') x)
             = count_elems ?q x" for x
    by (rule count_edit_if_found_same) (rule stale_window_add_window)
  have b: "count_elems ?q (edit_if_found p (classList_add ''active-tab'') x) = count_elems ?q x"
    for p x
    by (rule count_edit_if_found_same) (auto simp: marker_defs)
  from Some show ?thesis
    by (simp add: refresh_markers_split add_markers_def is_current_window_row_def Let_def a b z
        split: option.splits)
qed

lemma no_stale_tab:
  "count_elems (\<lambda>e. is_marked_tab e \<and> \<not> is_current_tab_row cw e) (refresh_markers cw d) = 0"
proof -
  have z0: "count_elems is_marked_tab (map_elems unmark d) = 0"
    by (rule count_map_elems_none) (simp add: not_marked_unmark)
  have a0: "count_elems is_marked_tab (edit_if_found p (classList_add ''active-window'') x)
             = count_elems is_marked_tab x" for p x
    by (rule count_edit_if_found_same) (simp add: marked_tab_add_window)
  have z: "count_elems (\<lambda>e. is_marked_tab e \<and> Q e) (map_elems unmark d) = 0" for Q
    by (rule count_map_elems_none) (simp add: not_marked_unmark)
  have a: "count_elems (\<lambda>e. is_marked_tab e \<and> Q e) (edit_if_found p (classList_add ''active-window'') x)
             = count_elems (\<lambda>e. is_marked_tab e \<and> Q e) x"
    if "\<And>e. Q (classList_add ''active-window'' e) = Q e" for p x Q
    by (rule count_edit_if_found_same) (simp add: that marked_tab_add_window)
  have b: "count_elems (\<lambda>e. is_marked_tab e \<and> \<not> is_tab_row tid e)
             (edit_if_found (is_tab_row tid) (classList_add ''active-tab'') x)
             = count_elems (\<lambda>e. is_marked_tab e \<and> \<not> is_tab_row tid e) x" for x tid
    by (rule count_edit_if_found_same) (auto simp: marker_defs)
  have c: "is_tab_row tid (classList_add ''active-window'' e) = is_tab_row tid e" for tid e
    by (auto simp: marker_defs)
  show ?thesis
    by (simp add: refresh_markers_split add_markers_def is_current_tab_row_def Let_def a b c z z0 a0
        split: option.splits)
qed

lemma filter_removeAll_absorb: "\<not> P a \<Longrightarrow> filter P (removeAll a cs) = filter P cs"
  by (induction cs) auto

lemma erase_markers_refresh: "erase_markers (refresh_markers cw d) = erase_markers d"
proof -
  let ?g = "\<lambda>e. e\<lparr>classes := filter (\<lambda>c. c \<noteq> ''active-window'' \<and> c \<noteq> ''active-tab'') (classes e)\<rparr>"
  have g_unmark: "?g (unmark e) = ?g e" for e
    by (simp add: marker_defs Let_def filter_removeAll_absorb)
  have g_add: "?g (classList_add c e) = ?g e" if "c = ''active-window'' \<or> c = ''active-tab''" for c e
    using that by (auto simp: classList_add_def)
  have "map_elems ?g (add_markers cw x) = map_elems ?g x" for x
    by (auto simp: add_markers_def Let_def map_elems_edit_if_found g_add split: option.splits)
  then show ?thesis
    by (simp add: erase_markers_def refresh_markers_split map_elems_absorb g_unmark)
qed

subsection \<open>Claims about the Activation Updater\<close>

text \<open>
  Claim C6. Running the Activation Updater a second time, the host's focus being the
  same, changes nothing more: the panel is what the first run left. After a run at
  most one window row carries \<^verbatim>\<open>active-window\<close> and at most one tab row carries
  \<^verbatim>\<open>active-tab\<close>, and no marked row is left that is not the row of the focused window,
  of its active tab. This holds on every document, not only on rendered trees.
\<close>

theorem updateActiveStates_idempotent:
  "updateActiveStates cw (updateActiveStates cw s) = updateActiveStates cw s
   \<and> count_elems is_marked_window (document (updateActiveStates cw s)) \<le> 1
   \<and> count_elems is_marked_tab (document (updateActiveStates cw s)) \<le> 1
   \<and> count_elems (\<lambda>e. is_marked_window e \<and> \<not> is_current_window_row cw e)
         (document (updateActiveStates cw s)) = 0
   \<and> count_elems (\<lambda>e. is_marked_tab e \<and> \<not> is_current_tab_row cw e)
         (document (updateActiveStates cw s)) = 0"
  using count_marked_window[of cw "document s"] count_marked_tab[of cw "document s"]
  by (simp add: updateActiveStates_def refresh_markers_idem no_stale_window no_stale_tab)

text \<open>
  Claim C9. The Activation Updater changes nothing but the two marker tokens: with
  \<^verbatim>\<open>active-window\<close> and \<^verbatim>\<open>active-tab\<close> taken out of every class list the document is
  the same tree before and after, so the rows and their order are the same; the two
  maps in memory, the two stored maps, the scroll offset and the scheduled work (no
  render among it) are untouched.
\<close>

theorem updateActiveStates_frame:
  "erase_markers (document (updateActiveStates cw s)) = erase_markers (document s)
   \<and> windowTitles (updateActiveStates cw s) = windowTitles s
   \<and> collapsedState (updateActiveStates cw s) = collapsedState s
   \<and> stored_windowTitles (updateActiveStates cw s) = stored_windowTitles s
   \<and> stored_collapsedState (updateActiveStates cw s) = stored_collapsedState s
   \<and> scrollTop (updateActiveStates cw s) = scrollTop s
   \<and> timers (updateActiveStates cw s) = timers s"
  by (simp add: updateActiveStates_def erase_markers_refresh)

subsection \<open>Claims about titles\<close>

text \<open>
  Claim C3, as the script has it. The title a window's editable span shows is
  \<open>display_title\<close>. When the custom-title map holds the empty string for the window's id
  the title shown is the default \<^verbatim>\<open>Window {id}\<close>, the same as when the map has no entry
  for the id; a stored title that is not empty is shown as it is stored.
\<close>

theorem cleared_title_shows_default:
  "map_option kids (querySelector (classList_contains ''editable-title'') (render_window parse wt cs gm win))
     = Some (textContent (display_title wt (win_id win)))
   \<and> (wt (string_of_int wid) = Some [] \<longrightarrow> display_title wt wid = ''Window '' @ string_of_int wid)
   \<and> (wt (string_of_int wid) = None \<longrightarrow> display_title wt wid = ''Window '' @ string_of_int wid)
   \<and> (\<forall>t. wt (string_of_int wid) = Some t \<and> t \<noteq> [] \<longrightarrow> display_title wt wid = t)"
  by (simp add: title_span_of_render_window display_title_def js_or_def)

theorem cleared_title_shows_default_witness:
  "map_of [(''7'', []), (''8'', ''Mail'')] (string_of_int 7) = Some []
   \<and> display_title (map_of [(''7'', []), (''8'', ''Mail'')]) 7 = ''Window 7''
   \<and> map_of [(''7'', []), (''8'', ''Mail'')] (string_of_int 9) = None
   \<and> display_title (map_of [(''7'', []), (''8'', ''Mail'')]) 9 = ''Window 9''
   \<and> map_of [(''7'', []), (''8'', ''Mail'')] (string_of_int 8) = Some ''Mail''
   \<and> display_title (map_of [(''7'', []), (''8'', ''Mail'')]) 8 = ''Mail''"
proof -
  let ?wt = "map_of [(''7'', []), (''8'', ''Mail'')]"
  have k7: "string_of_int 7 = ''7''" and k8: "string_of_int 8 = ''8''" and k9: "string_of_int 9 = ''9''"
    by code_simp+
  have h7: "?wt (string_of_int 7) = Some []" and h9: "?wt (string_of_int 9) = None"
    and h8: "?wt (string_of_int 8) = Some ''Mail''"
    by (simp_all add: k7 k8 k9)
  from cleared_title_shows_default[of _ ?wt _ _ _ 7] h7
  have "display_title ?wt 7 = ''Window '' @ string_of_int 7" by blast
  moreover from cleared_title_shows_default[of _ ?wt _ _ _ 9] h9
  have "display_title ?wt 9 = ''Window '' @ string_of_int 9" by blast
  moreover from cleared_title_shows_default[of _ ?wt _ _ _ 8] h8
  have "display_title ?wt 8 = ''Mail''" by blast
  ultimately show ?thesis using h7 h8 h9 by (simp add: k7 k9)
qed

text \<open>
  Claim C3 as the spec words it fails: window 7 has the empty string stored as its
  title, and its title span shows \<^verbatim>\<open>Window 7\<close>, not the empty text.
\<close>

theorem cleared_title_counterexample:
  "map_of [(''7'', [])] (string_of_int 7) = Some []
   \<and> display_title (map_of [(''7'', [])]) 7 \<noteq> []
   \<and> map_option kids (querySelector (classList_contains ''editable-title'')
        (render_window parse_markup (map_of [(''7'', [])]) (map_of []) (map_of [])
           \<lparr>win_id = 7, focused = False, tabs = []\<rparr>))
       = Some [Text ''Window 7'']"
proof -
  have k7: "string_of_int 7 = ''7''" by code_simp
  show ?thesis
    by (simp add: title_span_of_render_window display_title_def js_or_def k7 textContent_def)
qed

text \<open>
  Claim C5. Saving a title through the editable span writes the title map, the trimmed
  text under the window's id, to storage. Loading the titles from storage afterwards
  gives exactly that text for the window's id, whatever it is, the empty string
  included, and whatever the map in memory holds when the load starts (\<open>m\<close>): the
  value comes from storage. The same holds for the load a full render starts with, and
  for \<^verbatim>\<open>saveWindowTitle\<close> with any title.
\<close>

theorem saved_title_roundtrip:
  "stored_windowTitles (title_blur wid text s)
     = Some ((windowTitles s)(string_of_int wid \<mapsto> js_trim text))
   \<and> windowTitles (loadWindowTitles ((title_blur wid text s)\<lparr>windowTitles := m\<rparr>))
         (string_of_int wid)
       = Some (js_trim text)
   \<and> windowTitles (loadWindowTitles ((saveWindowTitle wid title s)\<lparr>windowTitles := m\<rparr>))
         (string_of_int wid)
       = Some title
   \<and> windowTitles (renderList parse lc ws gs cw r ((title_blur wid text s)\<lparr>windowTitles := m\<rparr>))
         (string_of_int wid)
       = Some (js_trim text)"
  by (simp add: renderList_def renderList_clear_def renderList_mount_def updateActiveStates_def
      loadCollapsedState_def loadWindowTitles_def title_blur_def saveWindowTitle_def Let_def)

text \<open>
  Window 5: a title between a no-break space, spaces, an em space (U+2003) and a tab
  comes back without them, the two spaces inside it kept; a title of an ideographic
  space (U+3000), a space and U+FEFF comes back as the empty string. The map in memory
  is emptied before the load.
\<close>

theorem saved_title_roundtrip_witness:
  "windowTitles
       (loadWindowTitles
          ((title_blur 5 ([CHR 0xC2, CHR 0xA0] @ '' My  Mail '' @ [CHR 0xE2, CHR 0x80, CHR 0x83, CHR 0x09])
              initial_panel)\<lparr>windowTitles := map_of []\<rparr>))
       (string_of_int 5)
     = Some ''My  Mail''
   \<and> windowTitles
       (loadWindowTitles
          ((title_blur 5 ([CHR 0xE3, CHR 0x80, CHR 0x80] @ '' '' @ [CHR 0xEF, CHR 0xBB, CHR 0xBF])
              initial_panel)\<lparr>windowTitles := map_of []\<rparr>))
       (string_of_int 5)
     = Some []"
proof -
  have "js_trim ([CHR 0xC2, CHR 0xA0] @ '' My  Mail '' @ [CHR 0xE2, CHR 0x80, CHR 0x83, CHR 0x09])
          = ''My  Mail''"
    "js_trim ([CHR 0xE3, CHR 0x80, CHR 0x80] @ '' '' @ [CHR 0xEF, CHR 0xBB, CHR 0xBF]) = []"
    by code_simp+
  then show ?thesis
    using saved_title_roundtrip[of 5 "[CHR 0xC2, CHR 0xA0] @ '' My  Mail '' @ [CHR 0xE2, CHR 0x80, CHR 0x83, CHR 0x09]"
        initial_panel "map_of []"]
      saved_title_roundtrip[of 5 "[CHR 0xE3, CHR 0x80, CHR 0x80] @ '' '' @ [CHR 0xEF, CHR 0xBB, CHR 0xBF]"
        initial_panel "map_of []"]
    by simp
qed

subsection \<open>Claims about tab rows\<close>

text \<open>
  Claim C8. \<^verbatim>\<open>createTabList\<close> builds one list item per tab, in order. In the item of a
  pinned tab the \<^verbatim>\<open>.tab-item\<close> element holds, in this order, the icon, the marker
  (class \<^verbatim>\<open>pinned-marker\<close>, hidden from assistive technology, holding the glyph), the
  title and a last element of class \<^verbatim>\<open>sr-only\<close> with the text \<^verbatim>\<open> (pinned)\<close>; the title
  element holds the tab's title (else its url) and nothing of the suffix. In the item
  of a tab that is not pinned it holds the icon and the title only.
\<close>

theorem pinned_row_marker_and_label:
  "kids (createTabList ts wid cn) = map (tab_row wid) ts
   \<and> (pinned t \<longrightarrow>
        map node_classes (link_kids (tab_row wid t))
          = [[''item-icon''], [''pinned-marker''], [''item-title''], [''sr-only'']]
        \<and> kids (link_kids (tab_row wid t) ! 1) = [Text pinned_glyph]
        \<and> node_attr ''aria-hidden'' (link_kids (tab_row wid t) ! 1) = Some ''true''
        \<and> kids (link_kids (tab_row wid t) ! 2) = textContent (js_or (tab_title t) (js_or (url t) []))
        \<and> kids (link_kids (tab_row wid t) ! 3) = [Text '' (pinned)''])
   \<and> (\<not> pinned t \<longrightarrow>
        map node_classes (link_kids (tab_row wid t)) = [[''item-icon''], [''item-title'']]
        \<and> kids (link_kids (tab_row wid t) ! 1) = textContent (js_or (tab_title t) (js_or (url t) [])))"
  by (simp add: link_kids_tab_row createTabList_def Let_def getAttribute_def)

theorem pinned_row_marker_and_label_witness:
  "pinned \<lparr>tab_id = 12, groupId = - 1, tab_title = Some ''Inbox'', url = None,
           favIconUrl = None, pinned = True, active = False\<rparr>
   \<and> map node_classes (link_kids (tab_row 1
        \<lparr>tab_id = 12, groupId = - 1, tab_title = Some ''Inbox'', url = None,
         favIconUrl = None, pinned = True, active = False\<rparr>))
       = [[''item-icon''], [''pinned-marker''], [''item-title''], [''sr-only'']]
   \<and> kids (link_kids (tab_row 1
        \<lparr>tab_id = 12, groupId = - 1, tab_title = Some ''Inbox'', url = None,
         favIconUrl = None, pinned = True, active = False\<rparr>) ! 2) = [Text ''Inbox'']
   \<and> \<not> pinned \<lparr>tab_id = 13, groupId = - 1, tab_title = None, url = Some ''about:blank'',
           favIconUrl = None, pinned = False, active = False\<rparr>
   \<and> map node_classes (link_kids (tab_row 1
        \<lparr>tab_id = 13, groupId = - 1, tab_title = None, url = Some ''about:blank'',
         favIconUrl = None, pinned = False, active = False\<rparr>))
       = [[''item-icon''], [''item-title'']]"
  using pinned_row_marker_and_label[of "[]" 1 "[]"
      "\<lparr>tab_id = 12, groupId = - 1, tab_title = Some ''Inbox'', url = None,
        favIconUrl = None, pinned = True, active = False\<rparr>"]
    pinned_row_marker_and_label[of "[]" 1 "[]"
      "\<lparr>tab_id = 13, groupId = - 1, tab_title = None, url = Some ''about:blank'',
        favIconUrl = None, pinned = False, active = False\<rparr>"]
  by (simp add: js_or_def textContent_def)

subsection \<open>Lookups under edits\<close>












subsection \<open>Collapsing and rendering\<close>











lemma groupMap_of_SomeD: "groupMap_of gs gid = Some g \<Longrightarrow> g \<in> set gs \<and> grp_id g = gid"
proof -
  have "fold (\<lambda>g m. m(grp_id g \<mapsto> g)) gs m gid = Some g
          \<Longrightarrow> (g \<in> set gs \<and> grp_id g = gid) \<or> m gid = Some g" for m
    by (induction gs arbitrary: m) (fastforce split: if_splits)+
  from this[of Map.empty] show "groupMap_of gs gid = Some g \<Longrightarrow> g \<in> set gs \<and> grp_id g = gid"
    by (simp add: groupMap_of_def)
qed






lemma collapsedState_renderList_load:
  "collapsedState (loadCollapsedState (loadWindowTitles s)) key = stored_flag s key"
  by (simp add: loadCollapsedState_def loadWindowTitles_def stored_flag_def split: option.splits)



lemma set_insort_cmp: "set (insort_cmp cmp x ys) = insert x (set ys)"
  by (induction ys) auto




lemma count_kid_le: "k \<in> set ks \<Longrightarrow> count_elems q k \<le> count_elems q (El e ks)"
  by (simp add: member_le_sum_list trans_le_add2)





lemma renderList_document:
  assumes "document s = El c old"
  shows "document (renderList parse lc ws gs cw r s) =
     refresh_markers cw (El c [El (className [''window-list''] (createElement ''ul''))
        (map (render_window parse (windowTitles (loadWindowTitles s))
                (collapsedState (loadCollapsedState s)) (groupMap_of gs))
             (js_sort (compare_windows lc (windowTitles (loadWindowTitles s))) ws))])"
  using assms
  by (simp add: renderList_def renderList_clear_def renderList_mount_def Let_def
        updateActiveStates_def appendChild_def loadCollapsedState_def loadWindowTitles_def)







subsection \<open>Sorting the windows\<close>

lemma mset_insort_cmp: "mset (insort_cmp cmp x ys) = add_mset x (mset ys)"
  by (induction ys) auto

lemma mset_js_sort: "mset (js_sort cmp xs) = mset xs"
  by (induction xs) (auto simp: mset_insort_cmp)

text \<open>The comparator alone keeps focused windows ahead, whatever the collation answers.\<close>

lemma focused_first_insort:
  "sorted_wrt (\<lambda>a b. focused b \<longrightarrow> focused a) ys
     \<Longrightarrow> sorted_wrt (\<lambda>a b. focused b \<longrightarrow> focused a) (insort_cmp (compare_windows lc wt) x ys)"
proof (induction ys)
  case Nil
  then show ?case by simp
next
  case (Cons y ys)
  show ?case
  proof (cases "compare_windows lc wt x y \<le> 0")
    case True
    then have "focused y \<longrightarrow> focused x"
      by (auto simp: compare_windows_def split: if_splits)
    with True Cons.prems show ?thesis by auto
  next
    case False
    then have "focused x \<longrightarrow> focused y"
      by (auto simp: compare_windows_def split: if_splits)
    with False Cons show ?thesis by (auto simp: set_insort_cmp)
  qed
qed

lemma focused_first_js_sort:
  "sorted_wrt (\<lambda>a b. focused b \<longrightarrow> focused a) (js_sort (compare_windows lc wt) ws)"
  by (induction ws) (auto simp: focused_first_insort)

lemma sorted_insort_cmp:
  assumes "\<And>a b c. cmp a b \<le> 0 \<Longrightarrow> cmp b c \<le> 0 \<Longrightarrow> cmp a c \<le> 0"
    and "\<And>a b. cmp a b \<le> 0 \<or> cmp b a \<le> 0"
  shows "sorted_wrt (\<lambda>a b. cmp a b \<le> 0) ys \<Longrightarrow> sorted_wrt (\<lambda>a b. cmp a b \<le> 0) (insort_cmp cmp x ys)"
proof (induction ys)
  case Nil
  then show ?case by simp
next
  case (Cons y ys)
  show ?case
  proof (cases "cmp x y \<le> 0")
    case True
    with Cons.prems assms(1) show ?thesis by auto
  next
    case False
    with assms(2)[of x y] have "cmp y x \<le> 0" by simp
    with False Cons show ?thesis by (auto simp: set_insort_cmp)
  qed
qed

lemma sorted_js_sort:
  assumes "\<And>a b c. cmp a b \<le> 0 \<Longrightarrow> cmp b c \<le> 0 \<Longrightarrow> cmp a c \<le> 0"
    and "\<And>a b. cmp a b \<le> 0 \<or> cmp b a \<le> 0"
  shows "sorted_wrt (\<lambda>a b. cmp a b \<le> 0) (js_sort cmp xs)"
proof (induction xs)
  case Nil
  then show ?case by simp
next
  case (Cons x xs)
  from sorted_insort_cmp[of cmp "js_sort cmp xs" x, OF assms Cons] show ?case by simp
qed

lemma compare_windows_le:
  "(compare_windows lc wt a b \<le> 0) =
     ((focused a \<and> \<not> focused b)
      \<or> (focused a = focused b \<and> lc (display_title wt (win_id a)) (display_title wt (win_id b)) \<le> 0))"
  by (auto simp: compare_windows_def)

lemma display_title_if_not_empty: "display_title wt (win_id w) = title_if_not_empty wt w"
  by (simp add: display_title_def title_if_not_empty_def js_or_def split: option.splits)

text \<open>
  Claim C4, as the script has it. The windows are rendered in the order
  \<^verbatim>\<open>windows.sort\<close> leaves them in, a rearrangement of the snapshot. In it every focused
  window stands before every window that is not focused, whatever the titles and
  whatever the collation answers. When the collation is a total preorder (transitive,
  and any two titles comparable), two windows that are not focused stand in the order
  the collation gives the titles \<open>title_if_not_empty\<close>: the stored custom title when
  there is one that is not empty, and \<^verbatim>\<open>Window {id}\<close> otherwise, also for a window whose
  stored title is the empty string.
\<close>

theorem windows_sorted_focused_first:
  "mset (js_sort (compare_windows lc wt) ws) = mset ws
   \<and> (\<forall>i j. i < length ws \<and> j < length ws
          \<and> focused (js_sort (compare_windows lc wt) ws ! i)
          \<and> \<not> focused (js_sort (compare_windows lc wt) ws ! j) \<longrightarrow> i < j)
   \<and> ((\<forall>a b c. lc a b \<le> 0 \<and> lc b c \<le> 0 \<longrightarrow> lc a c \<le> 0) \<and> (\<forall>a b. lc a b \<le> 0 \<or> lc b a \<le> 0) \<longrightarrow>
        (\<forall>i j. i < j \<and> j < length ws
           \<and> \<not> focused (js_sort (compare_windows lc wt) ws ! i)
           \<and> \<not> focused (js_sort (compare_windows lc wt) ws ! j) \<longrightarrow>
           lc (title_if_not_empty wt (js_sort (compare_windows lc wt) ws ! i))
              (title_if_not_empty wt (js_sort (compare_windows lc wt) ws ! j)) \<le> 0))
   \<and> (\<forall>c old. document s = El c old \<longrightarrow>
        document (renderList parse lc ws gs cw r s) =
          refresh_markers cw (El c [El (className [''window-list''] (createElement ''ul''))
            (map (render_window parse (windowTitles (loadWindowTitles s))
                    (collapsedState (loadCollapsedState s)) (groupMap_of gs))
                 (js_sort (compare_windows lc (windowTitles (loadWindowTitles s))) ws))]))"
proof -
  let ?ws = "js_sort (compare_windows lc wt) ws"
  have len: "length ?ws = length ws"
    using mset_js_sort[of "compare_windows lc wt" ws] by (metis size_mset)
  have 1: "i < j" if "i < length ws" "j < length ws" "focused (?ws ! i)" "\<not> focused (?ws ! j)" for i j
  proof (rule ccontr)
    assume "\<not> i < j"
    with that have "j < i" by (cases "i = j") auto
    from sorted_wrt_nth_less[OF focused_first_js_sort this, of lc wt ws] that len show False by simp
  qed
  have 2: "lc (title_if_not_empty wt (?ws ! i)) (title_if_not_empty wt (?ws ! j)) \<le> 0"
    if tr: "\<forall>a b c. lc a b \<le> 0 \<and> lc b c \<le> 0 \<longrightarrow> lc a c \<le> 0" and to: "\<forall>a b. lc a b \<le> 0 \<or> lc b a \<le> 0"
      and ij: "i < j" "j < length ws" "\<not> focused (?ws ! i)" "\<not> focused (?ws ! j)" for i j
  proof -
    have "sorted_wrt (\<lambda>a b. compare_windows lc wt a b \<le> 0) ?ws"
    proof (rule sorted_js_sort)
      fix a b c
      assume "compare_windows lc wt a b \<le> 0" "compare_windows lc wt b c \<le> 0"
      then show "compare_windows lc wt a c \<le> 0"
        unfolding compare_windows_le using tr by blast
    next
      fix a b
      show "compare_windows lc wt a b \<le> 0 \<or> compare_windows lc wt b a \<le> 0"
        unfolding compare_windows_le using to by blast
    qed
    from sorted_wrt_nth_less[OF this ij(1)] ij(2-) len show ?thesis
      by (simp add: compare_windows_le display_title_if_not_empty)
  qed
  have 3: "document (renderList parse lc ws gs cw r s) =
          refresh_markers cw (El c [El (className [''window-list''] (createElement ''ul''))
            (map (render_window parse (windowTitles (loadWindowTitles s))
                    (collapsedState (loadCollapsedState s)) (groupMap_of gs))
                 (js_sort (compare_windows lc (windowTitles (loadWindowTitles s))) ws))])"
    if "document s = El c old" for c old
    by (rule renderList_document[OF that])
  from mset_js_sort[of "compare_windows lc wt" ws] 1 2 3 show ?thesis by blast
qed

text \<open>
  Window 2 is focused, window 30 has the stored title \<^verbatim>\<open>Mail\<close>, window 4 the stored
  title \<^verbatim>\<open>""\<close>: the order is 2, 30, 4, window 30 sorted under \<^verbatim>\<open>Mail\<close> and window 4
  under \<^verbatim>\<open>Window 4\<close>. (The host's collation orders these titles as \<open>compare_lengths\<close>
  does.)
\<close>

theorem windows_sorted_focused_first_witness:
  "map win_id (js_sort (compare_windows compare_lengths (map_of [(''30'', ''Mail''), (''4'', [])]))
       example_windows) = [2, 30, 4]
   \<and> focused (js_sort (compare_windows compare_lengths (map_of [(''30'', ''Mail''), (''4'', [])]))
         example_windows ! 0)
   \<and> \<not> focused (js_sort (compare_windows compare_lengths (map_of [(''30'', ''Mail''), (''4'', [])]))
         example_windows ! 1)
   \<and> \<not> focused (js_sort (compare_windows compare_lengths (map_of [(''30'', ''Mail''), (''4'', [])]))
         example_windows ! 2)
   \<and> title_if_not_empty (map_of [(''30'', ''Mail''), (''4'', [])])
         (js_sort (compare_windows compare_lengths (map_of [(''30'', ''Mail''), (''4'', [])]))
            example_windows ! 1) = ''Mail''
   \<and> title_if_not_empty (map_of [(''30'', ''Mail''), (''4'', [])])
         (js_sort (compare_windows compare_lengths (map_of [(''30'', ''Mail''), (''4'', [])]))
            example_windows ! 2) = ''Window 4''
   \<and> compare_lengths
         (title_if_not_empty (map_of [(''30'', ''Mail''), (''4'', [])])
            (js_sort (compare_windows compare_lengths (map_of [(''30'', ''Mail''), (''4'', [])]))
               example_windows ! 1))
         (title_if_not_empty (map_of [(''30'', ''Mail''), (''4'', [])])
            (js_sort (compare_windows compare_lengths (map_of [(''30'', ''Mail''), (''4'', [])]))
               example_windows ! 2))
       \<le> 0"
proof -
  let ?wt = "map_of [(''30'', ''Mail''), (''4'', [])]"
  let ?ws = "js_sort (compare_windows compare_lengths ?wt) example_windows"
  have ids: "map win_id ?ws = [2, 30, 4]"
    by code_simp
  have f: "focused (?ws ! 0)" "\<not> focused (?ws ! 1)" "\<not> focused (?ws ! 2)"
    by code_simp+
  have t: "title_if_not_empty ?wt (?ws ! 1) = ''Mail''" "title_if_not_empty ?wt (?ws ! 2) = ''Window 4''"
    by code_simp+
  have len: "length example_windows = 3"
    by (simp add: example_windows_def)
  have tr: "\<forall>a b c. compare_lengths a b \<le> 0 \<and> compare_lengths b c \<le> 0 \<longrightarrow> compare_lengths a c \<le> 0"
    and to: "\<forall>a b. compare_lengths a b \<le> 0 \<or> compare_lengths b a \<le> 0"
    by (auto simp: compare_lengths_def)
  from windows_sorted_focused_first[of compare_lengths ?wt example_windows] tr to
  have "\<forall>i j. i < j \<and> j < length example_windows \<and> \<not> focused (?ws ! i) \<and> \<not> focused (?ws ! j) \<longrightarrow>
           compare_lengths (title_if_not_empty ?wt (?ws ! i)) (title_if_not_empty ?wt (?ws ! j)) \<le> 0"
    by blast
  from this[rule_format, of 1 2] f len
  have "compare_lengths (title_if_not_empty ?wt (?ws ! 1)) (title_if_not_empty ?wt (?ws ! 2)) \<le> 0"
    by simp
  with ids f t show ?thesis by (intro conjI)
qed

text \<open>
  Claim C4 as the spec words it fails: of two windows that are not focused, window 5
  has the empty string stored as its title and window 3 has no stored title. The
  stored title of window 5 is set, and is the empty string, which every collation puts
  before \<^verbatim>\<open>Window 3\<close>; the script sorts window 5 under \<^verbatim>\<open>Window 5\<close> and leaves it
  after window 3.
\<close>

theorem stored_empty_title_sorts_as_default:
  "map_of [(''5'', [])] (string_of_int 5) = Some ([] :: string)
   \<and> map win_id
       (js_sort (compare_windows compare_lengths (map_of [(''5'', [])]))
          [\<lparr>win_id = 3, focused = False, tabs = []\<rparr>, \<lparr>win_id = 5, focused = False, tabs = []\<rparr>])
     = [3, 5]
   \<and> map (title_if_set (map_of [(''5'', [])]))
       (js_sort (compare_windows compare_lengths (map_of [(''5'', [])]))
          [\<lparr>win_id = 3, focused = False, tabs = []\<rparr>, \<lparr>win_id = 5, focused = False, tabs = []\<rparr>])
     = [''Window 3'', []]
   \<and> map (title_if_not_empty (map_of [(''5'', [])]))
       (js_sort (compare_windows compare_lengths (map_of [(''5'', [])]))
          [\<lparr>win_id = 3, focused = False, tabs = []\<rparr>, \<lparr>win_id = 5, focused = False, tabs = []\<rparr>])
     = [''Window 3'', ''Window 5'']
   \<and> compare_lengths ''Window 3'' [] > 0"
  by code_simp

subsection \<open>First-encounter order\<close>

lemma render_tabs_positions:
  "render_tabs parse cs gm win R ts =
     concat (map (\<lambda>i. blk parse cs gm win (R \<union> (groupId ` set (take i ts) \<inter> {g. g > - 1})) (ts ! i))
               [0..<length ts])"
proof (induction ts arbitrary: R)
  case Nil
  then show ?case by simp
next
  case (Cons t ts)
  have shift: "R \<union> (groupId ` set (take (Suc i) (t # ts)) \<inter> {g. g > - 1})
      = (if groupId t > - 1 then insert (groupId t) R else R) \<union> (groupId ` set (take i ts) \<inter> {g. g > - 1})"
    for i by auto
  have step: "render_tabs parse cs gm win R (t # ts)
      = blk parse cs gm win R t
        @ render_tabs parse cs gm win (if groupId t > - 1 then insert (groupId t) R else R) ts"
    by (auto simp: blk_def insert_absorb split: option.splits)
  have "concat (map (\<lambda>i. blk parse cs gm win (R \<union> (groupId ` set (take i (t # ts)) \<inter> {g. g > - 1}))
                        ((t # ts) ! i)) [0..<length (t # ts)])
        = blk parse cs gm win R t
          @ concat (map (\<lambda>i. blk parse cs gm win
                         ((if groupId t > - 1 then insert (groupId t) R else R)
                            \<union> (groupId ` set (take i ts) \<inter> {g. g > - 1})) (ts ! i))
                      [0..<length ts])"
    unfolding length_Cons map_upt_Suc shift by simp
  with step Cons.IH show ?case by simp
qed

lemma distinct_filter_earlier:
  assumes "distinct (map f (filter P xs))" "i < length xs" "P (xs ! i)" "x \<in> set (take i xs)" "P x"
  shows "f x \<noteq> f (xs ! i)"
proof -
  have "xs = take i xs @ xs ! i # drop (Suc i) xs"
    using assms(2) by (rule id_take_nth_drop)
  then have "distinct (map f (filter P (take i xs @ xs ! i # drop (Suc i) xs)))"
    using assms(1) by simp
  then have "f (xs ! i) \<notin> f ` {y \<in> set (take i xs). P y}"
    using assms(3) by auto
  moreover have "f x \<in> f ` {y \<in> set (take i xs). P y}"
    using assms(4,5) by blast
  ultimately show ?thesis by auto
qed

lemma blk_block_at:
  assumes "lone_fallbacks gm win" "i < length (tabs win)"
  shows "blk parse cs gm win ({} \<union> (groupId ` set (take i (tabs win)) \<inter> {g. g > - 1})) (tabs win ! i)
          = block_at parse cs gm win i"
proof -
  let ?t = "tabs win ! i"
  let ?P = "\<lambda>t. groupId t > - 1 \<and> \<not> valid_group gm win (groupId t)"
  have fresh: "groupId ?t \<notin> groupId ` set (take i (tabs win))" if "?P ?t"
  proof
    assume "groupId ?t \<in> groupId ` set (take i (tabs win))"
    then obtain x where x: "x \<in> set (take i (tabs win))" "groupId x = groupId ?t" by auto
    with that have "?P x" by simp
    from distinct_filter_earlier[OF assms(1)[unfolded lone_fallbacks_def] assms(2) that x(1) this] x(2)
    show False by simp
  qed
  show ?thesis
  proof (cases "?P ?t")
    case True
    with fresh show ?thesis
      by (auto simp: blk_def block_at_def ungrouped_def valid_group_def Let_def split: option.splits)
  next
    case False
    then show ?thesis
      by (auto simp: blk_def block_at_def ungrouped_def valid_group_def Let_def split: option.splits)
  qed
qed

lemma render_tabs_first_encounter:
  assumes "lone_fallbacks gm win"
  shows "render_tabs parse cs gm win {} (tabs win) = first_encounter_blocks parse cs gm win"
proof -
  have "map (\<lambda>i. blk parse cs gm win ({} \<union> (groupId ` set (take i (tabs win)) \<inter> {g. g > - 1}))
                 (tabs win ! i)) [0..<length (tabs win)]
          = map (block_at parse cs gm win) [0..<length (tabs win)]"
    by (rule map_cong[OF refl], rule blk_block_at[OF assms], simp)
  then show ?thesis
    by (simp only: render_tabs_positions first_encounter_blocks_def)
qed

lemma render_group_parts:
  "map node_classes (concat (map kids (kids (render_group parse cs win g gid))))
     = [[''group-item''],
        if truthy (cs (''group-content-'' @ string_of_int gid)) then [''collapsed''] else []]"
  "map kids (block_region (render_group parse cs win g gid))
     = [[createTabList (filter (\<lambda>t. groupId t = gid) (tabs win)) (win_id win) ''tab-list-in-group'']]"
  by (simp_all add: render_group_def block_region_def Let_def build_defs createToggleArrow_def)

lemma render_window_content:
  "map_option kids (querySelector (\<lambda>e. ident e = ''window-content-'' @ string_of_int (win_id win))
       (render_window parse wt cs gm win))
     = Some (render_tabs parse cs gm win {} (tabs win))"
  by (simp add: render_window_def Let_def build_defs createToggleArrow_def textContent_def)

text \<open>
  Claim C2 holds of the script for the windows in which no two tabs share the id of a
  group that does not exist or belongs to another window, and fails for the others.
  \<open>first_encounter_blocks\<close> is the order in the words of the specification: going
  through the window's tabs in host order, an ungrouped tab is a row of its own at its
  position, the first tab of a group of the window brings the group's block at its
  position, and a later tab of the group adds nothing; a tab that names a group that
  does not exist or belongs to another window counts as ungrouped. When the tabs of
  that kind name different groups, the content region of the rendered window holds
  these blocks. A group's block is the header followed by the group's region, and the
  region lists all tabs of the window that carry the group's id, in host order. So a
  window of three tabs of which only the second is in a group G of the window shows
  the row of tab 1, the block of G with tab 2 in its region, the row of tab 3. In
  window 1 with the tabs 31 (no group), 32 (group 9, which does not exist), 33 (group
  7, of the window) and 34 (group 9) the script shows the rows of 31 and 32 and the
  block of group 7, and nothing for tab 34, which the order of the specification
  shows as a row after the block.
\<close>

theorem first_encounter_order_but_for_shared_fallback:
  "(lone_fallbacks gm win \<longrightarrow>
      render_tabs parse cs gm win {} (tabs win) = first_encounter_blocks parse cs gm win
      \<and> map_option kids
            (querySelector (\<lambda>e. ident e = ''window-content-'' @ string_of_int (win_id win))
               (render_window parse wt cs gm win))
          = Some (first_encounter_blocks parse cs gm win))
   \<and> map node_classes (concat (map kids (kids (render_group parse cs win g gid))))
       = [[''group-item''],
          if truthy (cs (''group-content-'' @ string_of_int gid)) then [''collapsed''] else []]
   \<and> map kids (block_region (render_group parse cs win g gid))
       = [[createTabList (filter (\<lambda>t. groupId t = gid) (tabs win)) (win_id win)
             ''tab-list-in-group'']]
   \<and> (\<forall>t1 t2 t3.
         tabs win = [t1, t2, t3] \<and> \<not> groupId t1 > - 1 \<and> groupId t2 > - 1 \<and> \<not> groupId t3 > - 1
           \<and> gm (groupId t2) = Some g \<and> windowId g = win_id win \<longrightarrow>
         render_tabs parse cs gm win {} (tabs win)
           = [createTabList [t1] (win_id win) ''tab-list-no-group'',
              render_group parse cs win g (groupId t2),
              createTabList [t3] (win_id win) ''tab-list-no-group'']
         \<and> map kids (block_region (render_group parse cs win g (groupId t2)))
             = [[createTabList [t2] (win_id win) ''tab-list-in-group'']])
   \<and> \<not> lone_fallbacks (groupMap_of [example_group]) shared_fallback_window
   \<and> render_content parse_markup (map_of []) [example_group] shared_fallback_window
       = [createTabList [tabs shared_fallback_window ! 0] 1 ''tab-list-no-group'',
          createTabList [tabs shared_fallback_window ! 1] 1 ''tab-list-no-group'',
          render_group parse_markup (map_of []) shared_fallback_window example_group 7]
   \<and> first_encounter_blocks parse_markup (map_of []) (groupMap_of [example_group])
         shared_fallback_window
       = [createTabList [tabs shared_fallback_window ! 0] 1 ''tab-list-no-group'',
          createTabList [tabs shared_fallback_window ! 1] 1 ''tab-list-no-group'',
          render_group parse_markup (map_of []) shared_fallback_window example_group 7,
          createTabList [tabs shared_fallback_window ! 3] 1 ''tab-list-no-group'']
   \<and> concat (map tab_ids_of
         (render_content parse_markup (map_of []) [example_group] shared_fallback_window))
       = [''31'', ''32'', ''33'']
   \<and> concat (map tab_ids_of
         (first_encounter_blocks parse_markup (map_of []) (groupMap_of [example_group])
            shared_fallback_window))
       = [''31'', ''32'', ''33'', ''34'']"
proof -
  have scen: "render_tabs parse cs gm win {} (tabs win)
           = [createTabList [t1] (win_id win) ''tab-list-no-group'',
              render_group parse cs win g (groupId t2),
              createTabList [t3] (win_id win) ''tab-list-no-group'']
         \<and> map kids (block_region (render_group parse cs win g (groupId t2)))
             = [[createTabList [t2] (win_id win) ''tab-list-in-group'']]"
    if "tabs win = [t1, t2, t3]" "\<not> groupId t1 > - 1" "groupId t2 > - 1" "\<not> groupId t3 > - 1"
      "gm (groupId t2) = Some g" "windowId g = win_id win" for t1 t2 t3
  proof -
    from that have f: "filter (\<lambda>t. groupId t = groupId t2) (tabs win) = [t2]" by auto
    from that have "render_tabs parse cs gm win {} (tabs win)
           = [createTabList [t1] (win_id win) ''tab-list-no-group'',
              render_group parse cs win g (groupId t2),
              createTabList [t3] (win_id win) ''tab-list-no-group'']"
      by simp
    with render_group_parts(2)[where cs = cs and win = win and g = g and gid = "groupId t2"] f
    show ?thesis by simp
  qed
  have gen: "render_tabs parse cs gm win {} (tabs win) = first_encounter_blocks parse cs gm win
      \<and> map_option kids
            (querySelector (\<lambda>e. ident e = ''window-content-'' @ string_of_int (win_id win))
               (render_window parse wt cs gm win))
          = Some (first_encounter_blocks parse cs gm win)"
    if "lone_fallbacks gm win"
    using render_window_content[of win parse wt cs gm] render_tabs_first_encounter[OF that, of parse cs]
    by simp
  have c1: "\<not> lone_fallbacks (groupMap_of [example_group]) shared_fallback_window"
    by code_simp
  have c2: "render_content parse_markup (map_of []) [example_group] shared_fallback_window
       = [createTabList [tabs shared_fallback_window ! 0] 1 ''tab-list-no-group'',
          createTabList [tabs shared_fallback_window ! 1] 1 ''tab-list-no-group'',
          render_group parse_markup (map_of []) shared_fallback_window example_group 7]"
    by code_simp
  have c3: "first_encounter_blocks parse_markup (map_of []) (groupMap_of [example_group])
         shared_fallback_window
       = [createTabList [tabs shared_fallback_window ! 0] 1 ''tab-list-no-group'',
          createTabList [tabs shared_fallback_window ! 1] 1 ''tab-list-no-group'',
          render_group parse_markup (map_of []) shared_fallback_window example_group 7,
          createTabList [tabs shared_fallback_window ! 3] 1 ''tab-list-no-group'']"
    by code_simp
  have c4: "concat (map tab_ids_of
         (render_content parse_markup (map_of []) [example_group] shared_fallback_window))
       = [''31'', ''32'', ''33'']"
    by code_simp
  have c5: "concat (map tab_ids_of
         (first_encounter_blocks parse_markup (map_of []) (groupMap_of [example_group])
            shared_fallback_window))
       = [''31'', ''32'', ''33'', ''34'']"
    by code_simp
  from gen render_group_parts[where cs = cs and win = win and g = g and gid = gid and parse = parse]
    scen c1 c2 c3 c4 c5
  show ?thesis by (intro conjI impI allI) blast+
qed

theorem first_encounter_order_but_for_shared_fallback_witness:
  "lone_fallbacks (groupMap_of [example_group]) example_window
   \<and> render_content parse_markup (map_of []) [example_group] example_window
       = first_encounter_blocks parse_markup (map_of []) (groupMap_of [example_group]) example_window
   \<and> tabs example_window = [example_tabs ! 0, example_tabs ! 1, example_tabs ! 2]
   \<and> \<not> groupId (example_tabs ! 0) > - 1 \<and> groupId (example_tabs ! 1) > - 1
   \<and> \<not> groupId (example_tabs ! 2) > - 1
   \<and> groupMap_of [example_group] (groupId (example_tabs ! 1)) = Some example_group
   \<and> windowId example_group = win_id example_window
   \<and> render_content parse_markup (map_of []) [example_group] example_window
       = [createTabList [example_tabs ! 0] 1 ''tab-list-no-group'',
          render_group parse_markup (map_of []) example_window example_group 7,
          createTabList [example_tabs ! 2] 1 ''tab-list-no-group'']
   \<and> concat (map tab_ids_of (render_content parse_markup (map_of []) [example_group] example_window))
       = [''11'', ''12'', ''13'']"
proof -
  have l: "lone_fallbacks (groupMap_of [example_group]) example_window"
    by code_simp
  have h: "tabs example_window = [example_tabs ! 0, example_tabs ! 1, example_tabs ! 2]"
    "\<not> groupId (example_tabs ! 0) > - 1" "groupId (example_tabs ! 1) > - 1"
    "\<not> groupId (example_tabs ! 2) > - 1"
    "groupMap_of [example_group] (groupId (example_tabs ! 1)) = Some example_group"
    "windowId example_group = win_id example_window"
    "groupId (example_tabs ! 1) = 7" "win_id example_window = 1"
    by (simp_all add: example_window_def example_tabs_def example_group_def groupMap_of_def)
  note inst = first_encounter_order_but_for_shared_fallback[of "groupMap_of [example_group]"
      example_window parse_markup "map_of []" _ example_group]
  from inst l
  have e: "render_tabs parse_markup (map_of []) (groupMap_of [example_group]) example_window {}
             (tabs example_window)
       = first_encounter_blocks parse_markup (map_of []) (groupMap_of [example_group]) example_window"
    by blast
  from inst h
  have r: "render_tabs parse_markup (map_of []) (groupMap_of [example_group]) example_window {}
             (tabs example_window)
       = [createTabList [example_tabs ! 0] 1 ''tab-list-no-group'',
          render_group parse_markup (map_of []) example_window example_group 7,
          createTabList [example_tabs ! 2] 1 ''tab-list-no-group'']"
    by (simp del: groupMap_of_def)
  have ids: "concat (map tab_ids_of (render_content parse_markup (map_of []) [example_group] example_window))
       = [''11'', ''12'', ''13'']"
    by code_simp
  have rc: "render_content parse_markup (map_of []) [example_group] example_window
       = render_tabs parse_markup (map_of []) (groupMap_of [example_group]) example_window {}
           (tabs example_window)"
    by (simp only: render_content_def)
  note e' = trans[OF rc e]
  note r' = trans[OF rc r]
  show ?thesis
    apply (intro conjI)
    apply (rule l)
    apply (rule e')
    apply (rule h(1))
    apply (rule h(2))
    apply (rule h(3))
    apply (rule h(4))
    apply (rule h(5))
    apply (rule h(6))
    apply (rule r')
    apply (rule ids)
    done
qed

text \<open>
  Claim C1 fails on the script. Two tabs of window 1 carry the group id 5, which no
  group has. The current script shows the first as an ungrouped row and nothing for
  the second: the first tab puts the id into \<open>renderedGroups\<close>, although no group was
  rendered, and the second is then skipped as a tab of a rendered group. The older loop
  shows neither tab.
\<close>

theorem shared_unknown_group_drops_tab:
  "render_content parse (map_of []) []
      \<lparr>win_id = 1, focused = True,
       tabs = [\<lparr>tab_id = 21, groupId = 5, tab_title = Some ''A'', url = None, favIconUrl = None,
                 pinned = False, active = True\<rparr>,
               \<lparr>tab_id = 22, groupId = 5, tab_title = Some ''B'', url = None, favIconUrl = None,
                 pinned = False, active = False\<rparr>]\<rparr>
     = [createTabList
          [\<lparr>tab_id = 21, groupId = 5, tab_title = Some ''A'', url = None, favIconUrl = None,
             pinned = False, active = True\<rparr>] 1 ''tab-list-no-group'']
   \<and> concat (map tab_ids_of
        (render_content parse (map_of []) []
           \<lparr>win_id = 1, focused = True,
            tabs = [\<lparr>tab_id = 21, groupId = 5, tab_title = Some ''A'', url = None, favIconUrl = None,
                      pinned = False, active = True\<rparr>,
                    \<lparr>tab_id = 22, groupId = 5, tab_title = Some ''B'', url = None, favIconUrl = None,
                      pinned = False, active = False\<rparr>]\<rparr>))
       = [''21'']
   \<and> render_content_v1 parse (map_of []) []
        \<lparr>win_id = 1, focused = True,
         tabs = [\<lparr>tab_id = 21, groupId = 5, tab_title = Some ''A'', url = None, favIconUrl = None,
                   pinned = False, active = True\<rparr>,
                 \<lparr>tab_id = 22, groupId = 5, tab_title = Some ''B'', url = None, favIconUrl = None,
                   pinned = False, active = False\<rparr>]\<rparr>
       = []"
  by code_simp

subsection \<open>The two render loops\<close>

lemma tab_ids_tab_row: "tab_ids_of (tab_row wid t) = [string_of_int (tab_id t)]"
  by (simp add: tab_row_def Let_def build_defs textContent_def pinned_glyph_def)

lemma tab_ids_tab_row_v1: "tab_ids_of (tab_row_v1 wid t) = [string_of_int (tab_id t)]"
  by (simp add: tab_row_v1_def Let_def build_defs textContent_def)

lemma tab_ids_createTabList:
  "cn \<noteq> ''tab-item'' \<Longrightarrow> tab_ids_of (createTabList ts wid cn) = map (\<lambda>t. string_of_int (tab_id t)) ts"
  by (induction ts) (auto simp: createTabList_def build_defs tab_ids_tab_row)

lemma tab_ids_createTabList_v1:
  "cn \<noteq> ''tab-item'' \<Longrightarrow> tab_ids_of (createTabList_v1 ts wid cn) = map (\<lambda>t. string_of_int (tab_id t)) ts"
  by (induction ts) (auto simp: createTabList_v1_def build_defs tab_ids_tab_row_v1)

lemma region_ids_tab_row: "region_ids_of (tab_row wid t) = []"
  by (simp add: tab_row_def Let_def build_defs textContent_def pinned_glyph_def)

lemma region_ids_tab_row_v1: "region_ids_of (tab_row_v1 wid t) = []"
  by (simp add: tab_row_v1_def Let_def build_defs textContent_def)

lemma region_ids_createTabList: "region_ids_of (createTabList ts wid cn) = []"
  by (induction ts) (auto simp: createTabList_def build_defs region_ids_tab_row)

lemma region_ids_createTabList_v1: "region_ids_of (createTabList_v1 ts wid cn) = []"
  by (induction ts) (auto simp: createTabList_v1_def build_defs region_ids_tab_row_v1)

lemma node_classes_createTabList:
  "node_classes (createTabList ts wid cn) = [cn]" "node_classes (createTabList_v1 ts wid cn) = [cn]"
  by (simp_all add: createTabList_def createTabList_v1_def build_defs)

text \<open>The region of a group block is the element built for it, whatever the header holds.\<close>

lemma layout_render_group:
  "node_classes (render_group parse cs win g gid) = [''group-list'']"
  "concat (map region_ids_of (block_region (render_group parse cs win g gid)))
     = [''group-content-'' @ string_of_int gid]"
  "concat (map tab_ids_of (block_region (render_group parse cs win g gid)))
     = map (\<lambda>t. string_of_int (tab_id t)) (filter (\<lambda>t. groupId t = gid) (tabs win))"
  using tab_ids_createTabList[of "''tab-list-in-group''" "filter (\<lambda>t. groupId t = gid) (tabs win)" "win_id win"]
    region_ids_createTabList[of "filter (\<lambda>t. groupId t = gid) (tabs win)" "win_id win" "''tab-list-in-group''"]
  by (simp_all add: render_group_def block_region_def Let_def build_defs createToggleArrow_def)

lemma layout_render_group_v1:
  "node_classes (render_group_v1 parse cs win g gid ts) = [''group-list'']"
  "concat (map region_ids_of (block_region (render_group_v1 parse cs win g gid ts)))
     = [''group-content-'' @ string_of_int gid]"
  "concat (map tab_ids_of (block_region (render_group_v1 parse cs win g gid ts)))
     = map (\<lambda>t. string_of_int (tab_id t)) ts"
  using tab_ids_createTabList_v1[of "''tab-list-in-group''" ts "win_id win"]
    region_ids_createTabList_v1[of ts "win_id win" "''tab-list-in-group''"]
  by (simp_all add: render_group_v1_def block_region_def Let_def build_defs createToggleArrow_def)


lemma group_layout_simps:
  "group_layout [] = []"
  "group_layout (createTabList ts wid ''tab-list-no-group'' # bs) = group_layout bs"
  "group_layout (render_group parse cs win g gid # bs) = layout_of_group win gid # group_layout bs"
  "group_layout (createTabList_v1 ts wid ''tab-list-no-group'' # bs) = group_layout bs"
  "group_layout (render_group_v1 parse cs win g gid ts # bs)
     = ([''group-content-'' @ string_of_int gid], map (\<lambda>t. string_of_int (tab_id t)) ts) # group_layout bs"
  "group_layout (xs @ ys) = group_layout xs @ group_layout ys"
  by (simp_all add: group_layout_def node_classes_createTabList layout_render_group
      layout_render_group_v1 layout_of_group_def)

lemma loose_tab_ids_simps:
  "loose_tab_ids [] = []"
  "loose_tab_ids (createTabList ts wid ''tab-list-no-group'' # bs)
     = map (\<lambda>t. string_of_int (tab_id t)) ts @ loose_tab_ids bs"
  "loose_tab_ids (render_group parse cs win g gid # bs) = loose_tab_ids bs"
  "loose_tab_ids (createTabList_v1 ts wid ''tab-list-no-group'' # bs)
     = map (\<lambda>t. string_of_int (tab_id t)) ts @ loose_tab_ids bs"
  "loose_tab_ids (render_group_v1 parse cs win g gid ts # bs) = loose_tab_ids bs"
  "loose_tab_ids (xs @ ys) = loose_tab_ids xs @ loose_tab_ids ys"
  by (simp_all add: loose_tab_ids_def node_classes_createTabList layout_render_group
      layout_render_group_v1 tab_ids_createTabList tab_ids_createTabList_v1)

text \<open>The current loop.\<close>

lemma group_layout_render_tabs:
  "set (group_layout (render_tabs parse cs gm win R ts))
     = layout_of_group win `
         {gid. gid > - 1 \<and> gid \<notin> R \<and> gid \<in> groupId ` set ts \<and> valid_group gm win gid}"
proof (induction ts arbitrary: R)
  case Nil
  then show ?case by (simp add: group_layout_simps)
next
  case (Cons t ts)
  show ?case
  proof (cases "groupId t > - 1")
    case False
    then have "{gid. gid > - 1 \<and> gid \<notin> R \<and> gid \<in> groupId ` set (t # ts) \<and> valid_group gm win gid}
        = {gid. gid > - 1 \<and> gid \<notin> R \<and> gid \<in> groupId ` set ts \<and> valid_group gm win gid}"
      by auto
    with False Cons.IH[of R] show ?thesis by (simp add: group_layout_simps)
  next
    case pos: True
    show ?thesis
    proof (cases "groupId t \<in> R")
      case True
      then have "{gid. gid > - 1 \<and> gid \<notin> R \<and> gid \<in> groupId ` set (t # ts) \<and> valid_group gm win gid}
        = {gid. gid > - 1 \<and> gid \<notin> R \<and> gid \<in> groupId ` set ts \<and> valid_group gm win gid}"
        by auto
      with True pos Cons.IH[of R] show ?thesis by (simp add: group_layout_simps)
    next
      case False
      let ?rest = "{gid. gid > - 1 \<and> gid \<notin> insert (groupId t) R \<and> gid \<in> groupId ` set ts
                      \<and> valid_group gm win gid}"
      show ?thesis
      proof (cases "valid_group gm win (groupId t)")
        case True
        then obtain g where g: "gm (groupId t) = Some g" "windowId g = win_id win"
          by (auto simp: valid_group_def split: option.splits)
        have "{gid. gid > - 1 \<and> gid \<notin> R \<and> gid \<in> groupId ` set (t # ts) \<and> valid_group gm win gid}
            = insert (groupId t) ?rest"
          using True False pos by auto
        with g False pos Cons.IH[of "insert (groupId t) R"] show ?thesis
          by (simp add: group_layout_simps)
      next
        case inv: False
        have "{gid. gid > - 1 \<and> gid \<notin> R \<and> gid \<in> groupId ` set (t # ts) \<and> valid_group gm win gid}
            = ?rest"
          using inv False pos by auto
        with inv False pos Cons.IH[of "insert (groupId t) R"] show ?thesis
          by (auto simp: group_layout_simps valid_group_def split: option.splits)
      qed
    qed
  qed
qed

lemma loose_tab_ids_render_tabs:
  "\<forall>t \<in> set ts. groupId t > - 1 \<longrightarrow> valid_group gm win (groupId t)
     \<Longrightarrow> loose_tab_ids (render_tabs parse cs gm win R ts)
         = map (\<lambda>t. string_of_int (tab_id t)) (filter (\<lambda>t. \<not> groupId t > - 1) ts)"
  by (induction ts arbitrary: R)
     (auto simp: loose_tab_ids_simps valid_group_def split: option.splits)

text \<open>The older loop.\<close>

lemma assoc_set_keys:
  "map fst (assoc_set k v m) = (if k \<in> fst ` set m then map fst m else map fst m @ [k])"
proof (induction m)
  case Nil
  then show ?case by simp
next
  case (Cons a m)
  then show ?case by (cases a) auto
qed

lemma assoc_set_absent: "k \<notin> fst ` set m \<Longrightarrow> assoc_set k v m = m @ [(k, v)]"
proof (induction m)
  case Nil
  then show ?case by simp
next
  case (Cons a m)
  then show ?case by (cases a) auto
qed

lemma map_other_keys:
  "k \<notin> fst ` set m \<Longrightarrow> map (\<lambda>(k', w). (k', if k' = k then f w else w)) m = m"
  by (induction m) auto

lemma assoc_set_present:
  "distinct (map fst m) \<Longrightarrow> map_of m k = Some w
     \<Longrightarrow> assoc_set k (f w) m = map (\<lambda>(k', w). (k', if k' = k then f w else w)) m"
proof (induction m)
  case Nil
  then show ?case by simp
next
  case (Cons a m)
  obtain a1 a2 where a: "a = (a1, a2)" by (cases a)
  show ?case
  proof (cases "k = a1")
    case True
    with Cons.prems a have "k \<notin> fst ` set m" "w = a2" by auto
    with True a map_other_keys[of k m f] show ?thesis by simp
  next
    case False
    with Cons a show ?thesis by simp
  qed
qed

lemma init_keys:
  "distinct (map fst (tabsByGroup_init gs win))"
  "fst ` set (tabsByGroup_init gs win)
     = insert None (Some ` grp_id ` {g \<in> set gs. windowId g = win_id win})"
  "snd ` set (tabsByGroup_init gs win) \<subseteq> {[]}"
proof -
  let ?step = "\<lambda>g m. if windowId g = win_id win then assoc_set (Some (grp_id g)) [] m else m"
  have step: "distinct (map fst (?step g m)) \<and> snd ` set (?step g m) \<subseteq> {[]}
        \<and> fst ` set (?step g m)
             = fst ` set m \<union> (if windowId g = win_id win then {Some (grp_id g)} else {})"
    if "distinct (map fst m)" "snd ` set m \<subseteq> {[]}" for m :: "(int option \<times> tab list) list" and g
  proof (cases "windowId g = win_id win")
    case False
    with that show ?thesis by simp
  next
    case True
    show ?thesis
    proof (cases "map_of m (Some (grp_id g))")
      case None
      then have "Some (grp_id g) \<notin> fst ` set m" by (simp add: map_of_eq_None_iff)
      with True that assoc_set_absent[OF this, of "[]"] show ?thesis by auto
    next
      case (Some w)
      then have "(Some (grp_id g), w) \<in> set m" by (rule map_of_SomeD)
      with that(2) have w: "w = []" and k: "Some (grp_id g) \<in> fst ` set m" by force+
      from assoc_set_present[OF that(1) Some, of "\<lambda>_. []"]
      have "assoc_set (Some (grp_id g)) [] m
              = map (\<lambda>(k', w). (k', if k' = Some (grp_id g) then [] else w)) m" by simp
      also have "\<dots> = m"
        using that(2) by (intro map_idI) (auto simp: case_prod_beta)
      finally show ?thesis using True that k by auto
    qed
  qed
  have "distinct (map fst (fold ?step gs m)) \<and> snd ` set (fold ?step gs m) \<subseteq> {[]}
        \<and> fst ` set (fold ?step gs m)
             = fst ` set m \<union> Some ` grp_id ` {g \<in> set gs. windowId g = win_id win}"
    if "distinct (map fst m)" "snd ` set m \<subseteq> {[]}" for m :: "(int option \<times> tab list) list"
    using that
  proof (induction gs arbitrary: m)
    case Nil
    then show ?case by simp
  next
    case (Cons g gs)
    from step[OF Cons.prems, of g] Cons.IH[of "?step g m"] show ?case by auto
  qed
  from this[of "[(None, [])]"] show "distinct (map fst (tabsByGroup_init gs win))"
    "fst ` set (tabsByGroup_init gs win)
     = insert None (Some ` grp_id ` {g \<in> set gs. windowId g = win_id win})"
    "snd ` set (tabsByGroup_init gs win) \<subseteq> {[]}"
    by (auto simp: tabsByGroup_init_def)
qed

lemma fill_map:
  "distinct (map fst m)
     \<Longrightarrow> tabsByGroup_fill ts m = map (\<lambda>(k, v). (k, v @ filter (\<lambda>t. group_key t = k) ts)) m"
proof (induction ts arbitrary: m)
  case Nil
  then show ?case by (simp add: tabsByGroup_fill_def)
next
  case (Cons t ts)
  let ?m1 = "case map_of m (group_key t) of None \<Rightarrow> m
             | Some arr \<Rightarrow> assoc_set (group_key t) (arr @ [t]) m"
  have m1: "?m1 = map (\<lambda>(k, v). (k, v @ (if group_key t = k then [t] else []))) m"
  proof (cases "map_of m (group_key t)")
    case None
    then have "group_key t \<notin> fst ` set m" by (simp add: map_of_eq_None_iff)
    then have "map (\<lambda>(k, v). (k, v @ (if group_key t = k then [t] else []))) m = m"
      by (intro map_idI) (auto simp: case_prod_beta)
    with None show ?thesis by simp
  next
    case (Some arr)
    from assoc_set_present[OF Cons.prems Some, of "\<lambda>w. w @ [t]"] Some
    have "?m1 = map (\<lambda>(k', w). (k', if k' = group_key t then w @ [t] else w)) m" by simp
    also have "\<dots> = map (\<lambda>(k, v). (k, v @ (if group_key t = k then [t] else []))) m"
      by (rule map_cong[OF refl]) auto
    finally show ?thesis .
  qed
  have d1: "distinct (map fst ?m1)"
    using Cons.prems by (simp add: m1 case_prod_beta comp_def)
  have "tabsByGroup_fill (t # ts) m = tabsByGroup_fill ts ?m1"
    by (simp add: tabsByGroup_fill_def)
  also have "\<dots> = map (\<lambda>(k, v). (k, v @ filter (\<lambda>t. group_key t = k) ts)) ?m1"
    by (rule Cons.IH[OF d1])
  also have "\<dots> = map (\<lambda>(k, v). (k, v @ filter (\<lambda>x. group_key x = k) (t # ts))) m"
    unfolding m1 by (auto simp: case_prod_beta)
  finally show ?case .
qed

lemma loose_tab_ids_render_groups_v1: "loose_tab_ids (render_groups_v1 parse cs gm win entries) = []"
  by (induction entries) (auto simp: loose_tab_ids_simps split: option.splits)

lemma group_layout_render_groups_v1:
  "set (group_layout (render_groups_v1 parse cs gm win entries))
     = (\<lambda>(gid, ts). ([''group-content-'' @ string_of_int gid], map (\<lambda>t. string_of_int (tab_id t)) ts)) `
         {(gid, ts). (Some gid, ts) \<in> set entries \<and> ts \<noteq> [] \<and> valid_group gm win gid}"
proof (induction entries)
  case Nil
  then show ?case by (simp add: group_layout_simps)
next
  case (Cons a entries)
  obtain k ts where a: "a = (k, ts)" by (cases a)
  let ?S = "\<lambda>es. {(gid, ts). (Some gid, ts) \<in> set es \<and> ts \<noteq> [] \<and> valid_group gm win gid}"
  show ?case
  proof (cases "\<exists>gid. k = Some gid \<and> ts \<noteq> [] \<and> valid_group gm win gid")
    case True
    then obtain gid g where g: "k = Some gid" "ts \<noteq> []" "gm gid = Some g" "windowId g = win_id win"
      by (auto simp: valid_group_def split: option.splits)
    then have "?S (a # entries) = insert (gid, ts) (?S entries)"
      using a by (auto simp: valid_group_def)
    with g a Cons.IH show ?thesis by (simp add: group_layout_simps)
  next
    case False
    then have "?S (a # entries) = ?S entries"
      using a by auto
    with False a Cons.IH show ?thesis
      by (auto simp: group_layout_simps valid_group_def split: option.splits)
  qed
qed

lemma filter_group_key:
  "filter (\<lambda>t. group_key t = Some gid) ts = (if gid > - 1 then filter (\<lambda>t. groupId t = gid) ts else [])"
  "filter (\<lambda>t. group_key t = None) ts = filter (\<lambda>t. \<not> groupId t > - 1) ts"
  by (induction ts) (auto simp: group_key_def)

lemma tabsByGroup_entries:
  "tabsByGroup_fill ts (tabsByGroup_init gs win)
     = map (\<lambda>(k, v). (k, filter (\<lambda>t. group_key t = k) ts)) (tabsByGroup_init gs win)"
proof -
  have "v = []" if "(k, v) \<in> set (tabsByGroup_init gs win)" for k v
    using init_keys(3)[of gs win] that by force
  then show ?thesis
    unfolding fill_map[OF init_keys(1)]
    by (intro map_cong[OF refl]) auto
qed

lemma group_layout_v1:
  "set (group_layout (render_content_v1 parse cs gs win))
     = layout_of_group win `
         {gid. gid > - 1 \<and> gid \<in> groupId ` set (tabs win) \<and> valid_group (groupMap_of gs) win gid}"
proof -
  let ?es = "tabsByGroup_fill (tabs win) (tabsByGroup_init gs win)"
  let ?gm = "groupMap_of gs"
  have key: "Some gid \<in> fst ` set (tabsByGroup_init gs win)" if "valid_group ?gm win gid" for gid
  proof -
    from that obtain g where "?gm gid = Some g" "windowId g = win_id win"
      by (auto simp: valid_group_def split: option.splits)
    with groupMap_of_SomeD[of gs gid g] show ?thesis
      unfolding init_keys(2) by auto
  qed
  have mem: "((Some gid, ts) \<in> set ?es)
      = (Some gid \<in> fst ` set (tabsByGroup_init gs win)
         \<and> ts = filter (\<lambda>t. group_key t = Some gid) (tabs win))" for gid ts
    unfolding tabsByGroup_entries by force
  have "{(gid, ts). (Some gid, ts) \<in> set ?es \<and> ts \<noteq> [] \<and> valid_group ?gm win gid}
      = (\<lambda>gid. (gid, filter (\<lambda>t. groupId t = gid) (tabs win))) `
          {gid. gid > - 1 \<and> gid \<in> groupId ` set (tabs win) \<and> valid_group ?gm win gid}"
    (is "?A = ?B")
  proof (rule set_eqI)
    fix x :: "int \<times> tab list"
    obtain gid ts where x: "x = (gid, ts)" by (cases x)
    have "x \<in> ?A \<longleftrightarrow> valid_group ?gm win gid \<and> ts = filter (\<lambda>t. group_key t = Some gid) (tabs win)
            \<and> ts \<noteq> []"
      using key[of gid] by (auto simp: x mem)
    also have "\<dots> \<longleftrightarrow> valid_group ?gm win gid \<and> gid > - 1 \<and> ts = filter (\<lambda>t. groupId t = gid) (tabs win)
            \<and> gid \<in> groupId ` set (tabs win)"
      by (auto simp: filter_group_key filter_empty_conv)
    also have "\<dots> \<longleftrightarrow> x \<in> ?B"
      by (auto simp: x)
    finally show "x \<in> ?A \<longleftrightarrow> x \<in> ?B" .
  qed
  then have "set (group_layout (render_groups_v1 parse cs ?gm win ?es))
      = layout_of_group win `
         {gid. gid > - 1 \<and> gid \<in> groupId ` set (tabs win) \<and> valid_group ?gm win gid}"
    unfolding group_layout_render_groups_v1
    by (simp add: image_image layout_of_group_def)
  then show ?thesis
    by (auto simp: render_content_v1_def Let_def appendChild_def group_layout_simps
        split: option.splits)
qed

lemma map_of_map_keyed:
  "map_of (map (\<lambda>(k, v). (k, f k v)) m) k = map_option (f k) (map_of m k)"
  by (induction m) auto

lemma loose_tab_ids_v1:
  "loose_tab_ids (render_content_v1 parse cs gs win)
     = map (\<lambda>t. string_of_int (tab_id t)) (filter (\<lambda>t. \<not> groupId t > - 1) (tabs win))"
proof -
  have "None \<in> fst ` set (tabsByGroup_init gs win)"
    unfolding init_keys(2) by simp
  then obtain v where "map_of (tabsByGroup_init gs win) None = Some v"
    by (metis map_of_eq_None_iff not_None_eq)
  then have "map_of (tabsByGroup_fill (tabs win) (tabsByGroup_init gs win)) None
      = Some (filter (\<lambda>t. group_key t = None) (tabs win))"
    unfolding tabsByGroup_entries
    using map_of_map_keyed[of "\<lambda>k v. filter (\<lambda>t. group_key t = k) (tabs win)"
        "tabsByGroup_init gs win" None]
    by simp
  then show ?thesis
    by (simp add: render_content_v1_def Let_def appendChild_def loose_tab_ids_simps
        loose_tab_ids_render_groups_v1 filter_group_key)
qed

text \<open>
  Claim C10, as the two loops have it. For every window the two loops build the same
  group blocks: the same regions, each listing the same tabs in host order. The older
  loop lists outside the groups exactly the tabs without a group, in host order, and
  so does the current one when every tab that names a group names a group of the
  window. The top-to-bottom sequence of the blocks is not the same.
\<close>

theorem render_loops_same_groups:
  "set (group_layout (render_content parse cs gs win)) = set (group_layout (render_content_v1 parse cs gs win))
   \<and> loose_tab_ids (render_content_v1 parse cs gs win)
       = map (\<lambda>t. string_of_int (tab_id t)) (filter (\<lambda>t. \<not> groupId t > - 1) (tabs win))
   \<and> (well_grouped gs win \<longrightarrow>
        loose_tab_ids (render_content parse cs gs win) = loose_tab_ids (render_content_v1 parse cs gs win))"
proof -
  have "set (group_layout (render_content parse cs gs win))
      = layout_of_group win `
         {gid. gid > - 1 \<and> gid \<in> groupId ` set (tabs win) \<and> valid_group (groupMap_of gs) win gid}"
    unfolding render_content_def group_layout_render_tabs by simp
  moreover have "loose_tab_ids (render_content parse cs gs win)
      = map (\<lambda>t. string_of_int (tab_id t)) (filter (\<lambda>t. \<not> groupId t > - 1) (tabs win))"
    if "well_grouped gs win"
    unfolding render_content_def
    by (rule loose_tab_ids_render_tabs) (use that in \<open>simp add: well_grouped_def valid_group_def\<close>)
  ultimately show ?thesis
    by (simp add: group_layout_v1 loose_tab_ids_v1)
qed

theorem render_loops_same_groups_witness:
  "well_grouped [example_group] example_window
   \<and> group_layout (render_content parse_markup (map_of []) [example_group] example_window)
       = [([''group-content-7''], [''12''])]
   \<and> group_layout (render_content_v1 parse_markup (map_of []) [example_group] example_window)
       = [([''group-content-7''], [''12''])]
   \<and> loose_tab_ids (render_content parse_markup (map_of []) [example_group] example_window) = [''11'', ''13'']
   \<and> loose_tab_ids (render_content_v1 parse_markup (map_of []) [example_group] example_window) = [''11'', ''13'']"
proof -
  have w: "well_grouped [example_group] example_window"
    by (simp add: well_grouped_def example_window_def example_tabs_def example_group_def
        groupMap_of_def)
  have new: "group_layout (render_content parse_markup (map_of []) [example_group] example_window)
       = [([''group-content-7''], [''12''])]"
    "loose_tab_ids (render_content parse_markup (map_of []) [example_group] example_window) = [''11'', ''13'']"
    and old: "group_layout (render_content_v1 parse_markup (map_of []) [example_group] example_window)
       = [([''group-content-7''], [''12''])]"
    by code_simp+
  from render_loops_same_groups[of parse_markup "map_of []" "[example_group]" example_window] w
  have "loose_tab_ids (render_content parse_markup (map_of []) [example_group] example_window)
      = loose_tab_ids (render_content_v1 parse_markup (map_of []) [example_group] example_window)"
    by (elim conjE impE)
  from trans[OF this[symmetric] new(2)] w new old show ?thesis by (intro conjI)
qed

text \<open>
  Claim C10 as it is worded fails. On the example window (an ungrouped tab, a tab of the
  group, an ungrouped tab) the current loop builds a row, the group block, a row; the
  older loop builds the group block and then one list with both ungrouped tabs, so the
  tabs come in the order 12, 11, 13.
\<close>

theorem render_loops_differ:
  "render_content parse_markup (map_of []) [example_group] example_window
     \<noteq> render_content_v1 parse_markup (map_of []) [example_group] example_window
   \<and> map node_classes (render_content parse_markup (map_of []) [example_group] example_window)
       = [[''tab-list-no-group''], [''group-list''], [''tab-list-no-group'']]
   \<and> map node_classes (render_content_v1 parse_markup (map_of []) [example_group] example_window)
       = [[''group-list''], [''tab-list-no-group'']]
   \<and> concat (map tab_ids_of (render_content parse_markup (map_of []) [example_group] example_window))
       = [''11'', ''12'', ''13'']
   \<and> concat (map tab_ids_of (render_content_v1 parse_markup (map_of []) [example_group] example_window))
       = [''12'', ''11'', ''13'']"
proof -
  have c: "map node_classes (render_content parse_markup (map_of []) [example_group] example_window)
       = [[''tab-list-no-group''], [''group-list''], [''tab-list-no-group'']]"
    "map node_classes (render_content_v1 parse_markup (map_of []) [example_group] example_window)
       = [[''group-list''], [''tab-list-no-group'']]"
    "concat (map tab_ids_of (render_content parse_markup (map_of []) [example_group] example_window))
       = [''11'', ''12'', ''13'']"
    "concat (map tab_ids_of (render_content_v1 parse_markup (map_of []) [example_group] example_window))
       = [''12'', ''11'', ''13'']"
    by code_simp+
  have "render_content parse_markup (map_of []) [example_group] example_window
     \<noteq> render_content_v1 parse_markup (map_of []) [example_group] example_window"
  proof
    assume "render_content parse_markup (map_of []) [example_group] example_window
      = render_content_v1 parse_markup (map_of []) [example_group] example_window"
    then have "map node_classes (render_content parse_markup (map_of []) [example_group] example_window)
      = map node_classes (render_content_v1 parse_markup (map_of []) [example_group] example_window)"
      by (rule arg_cong)
    then show False unfolding c by simp
  qed
  with c show ?thesis by (intro conjI)
qed

subsection \<open>Decimal numerals\<close>

lemma nat_of_string_of_nat: "nat_of_string (string_of_nat n) = n"
proof (induction n rule: string_of_nat.induct)
  case (1 n)
  show ?case
  proof (cases "n < 10")
    case True
    then show ?thesis
      by (subst string_of_nat.simps) (simp add: nat_of_string_def)
  next
    case False
    with 1 have "nat_of_string (string_of_nat (n div 10)) = n div 10" by simp
    moreover have "n mod 10 < 10" by simp
    ultimately show ?thesis
      using False
      by (subst string_of_nat.simps) (simp add: nat_of_string_def)
  qed
qed

lemma string_of_nat_inj: "string_of_nat m = string_of_nat n \<Longrightarrow> m = n"
  by (metis nat_of_string_of_nat)

lemma string_of_nat_digits: "c \<in> set (string_of_nat n) \<Longrightarrow> c \<noteq> CHR ''-''"
proof (induction n rule: string_of_nat.induct)
  case (1 n)
  have d: "char_of (48 + k) \<noteq> CHR ''-''" if "k < 10" for k :: nat
  proof
    assume "char_of (48 + k) = CHR ''-''"
    then have "of_char (char_of (48 + k) :: char) = (of_char CHR ''-'' :: nat)" by simp
    with that show False by simp
  qed
  show ?case
  proof (cases "n < 10")
    case True
    with 1(2) d[of n] show ?thesis
      by (subst (asm) string_of_nat.simps) simp
  next
    case False
    have "n mod 10 < 10" by simp
    from d[OF this] 1(1)[OF False] 1(2) False show ?thesis
      by (subst (asm) string_of_nat.simps) auto
  qed
qed

lemma string_of_nat_nonempty: "string_of_nat n \<noteq> []"
  by (subst string_of_nat.simps) simp

lemma string_of_int_inj: "string_of_int i = string_of_int j \<Longrightarrow> i = j"
proof -
  assume eq: "string_of_int i = string_of_int j"
  have neg_pos: False if "k < 0" "0 \<le> l" "CHR ''-'' # string_of_nat (nat (- k)) = string_of_nat (nat l)"
    for k l :: int
  proof -
    from that(3) have "CHR ''-'' \<in> set (string_of_nat (nat l))" by (metis list.set_intros(1))
    with string_of_nat_digits show False by blast
  qed
  show "i = j"
  proof (cases "i < 0")
    case True
    show ?thesis
    proof (cases "j < 0")
      case jn: True
      with True eq have "nat (- i) = nat (- j)"
        by (auto simp: string_of_int_def dest: string_of_nat_inj)
      with True jn show ?thesis by simp
    next
      case False
      with True eq neg_pos[of i j] show ?thesis by (simp add: string_of_int_def)
    qed
  next
    case False
    show ?thesis
    proof (cases "j < 0")
      case True
      with False eq neg_pos[of j i] show ?thesis by (simp add: string_of_int_def)
    next
      case jp: False
      with False eq have "nat i = nat j"
        by (auto simp: string_of_int_def dest: string_of_nat_inj)
      with False jp show ?thesis by simp
    qed
  qed
qed

subsection \<open>Arrows and their regions\<close>










lemma group_key_inj:
  "''group-content-'' @ string_of_int a = ''group-content-'' @ string_of_int b \<Longrightarrow> a = b"
  "''window-content-'' @ string_of_int a = ''window-content-'' @ string_of_int b \<Longrightarrow> a = b"
  by (auto dest: string_of_int_inj)









lemma count_region_ids:
  "key \<noteq> [] \<Longrightarrow> count_elems (\<lambda>e. ident e = key) d = count_list (region_ids_of d) key"
  by (induction d) (auto simp: count_list_concat comp_def intro: arg_cong[where f = sum_list])


subsection \<open>Claims about collapsing\<close>




text \<open>
  What the condition on the titles keeps out: a group whose title is the markup of an
  element with the id of the group's region. The header of the group comes before its
  region, so the click on the group's arrow finds the element of the title: the flag
  \<open>true\<close> is stored, and the region keeps showing its tabs.
\<close>

lemma title_markup_shadows_region:
  "\<not> plain_titles parse_markup [shadowing_group]
   \<and> map_option tag (getElementById ''group-content-7'' (document shadowed_panel)) = Some ''i''
   \<and> map_option arrow_keys_of (node_at [0, 0, 1, 1, 0, 0, 0] (document shadowed_panel))
       = Some [''group-content-7'']
   \<and> map_option node_classes (node_at [0, 0, 1, 1, 0, 1] (document shadowed_panel)) = Some []
   \<and> map_option node_classes
         (node_at [0, 0, 1, 1, 0, 1]
            (document (toggle_click [0, 0, 1, 1, 0, 0, 0] ''group-content-7'' shadowed_panel)))
       = Some []
   \<and> stored_flag (toggle_click [0, 0, 1, 1, 0, 0, 0] ''group-content-7'' shadowed_panel)
         ''group-content-7''
       = Some True"
  by code_simp

end
